theory Spec2Isabelle
  imports Complex_Main "HOL-Library.Sublist" "HOL-Library.Log_Nat"
begin

section \<open>Python values: bytes, strings, exceptions\<close>

text \<open>
  A \<^verbatim>\<open>bytes\<close> object is a list of 8-bit characters, and so is a (ASCII) \<^verbatim>\<open>str\<close>.
  Python integers are unbounded: \<^typ>\<open>int\<close>. An optional keyword argument, or a key a
  dictionary may lack, is an \<^typ>\<open>'a option\<close>.
\<close>

type_synonym bytes = "char list"

text \<open>
  Exceptions are values. \<open>Exception msg\<close> is what \<^verbatim>\<open>raise Exception(msg)\<close> of the source
  raises; the other constructors are the exceptions of the interpreter and of the imaging
  library that the source lets through or catches. \<open>message\<close> is \<^verbatim>\<open>str(e)\<close>. The library
  ends the text of \<open>UnidentifiedImageError\<close> with the \<^verbatim>\<open>repr\<close> of the stream it was given,
  \<^verbatim>\<open><_io.BytesIO object at 0x...>\<close>, which holds the address of the stream: the constructor
  carries that \<^verbatim>\<open>repr\<close>.
\<close>

datatype error =
    Exception string
  | UnidentifiedImageError string
  | ZeroDivisionError string
  | ValueError string
  | TypeError string
  | OSError string

fun message :: "error \<Rightarrow> string" where
  "message (Exception m) = m"
| "message (UnidentifiedImageError r) = ''cannot identify image file '' @ r"
| "message (ZeroDivisionError m) = m"
| "message (ValueError m) = m"
| "message (TypeError m) = m"
| "message (OSError m) = m"

text \<open>\<^verbatim>\<open>try: ... except Exception as e: raise Exception(f"<prefix>{str(e)}")\<close>\<close>

definition reraise :: "string \<Rightarrow> error + 'a \<Rightarrow> error + 'a" where
  "reraise pre r = (case r of Inl e \<Rightarrow> Inl (Exception (pre @ message e)) | Inr v \<Rightarrow> Inr v)"

text \<open>Truthiness of an optional integer: \<^verbatim>\<open>None\<close> and \<^verbatim>\<open>0\<close> are false.\<close>

fun truthy :: "int option \<Rightarrow> bool" where
  "truthy None = False"
| "truthy (Some v) = (v \<noteq> 0)"

text \<open>\<^verbatim>\<open>str(n)\<close> for an integer, as the f-strings of the source format it.\<close>

fun digits :: "nat \<Rightarrow> string" where
  "digits n = (if n < 10 then [''0123456789'' ! n]
               else digits (n div 10) @ [''0123456789'' ! (n mod 10)])"

declare digits.simps [simp del]

definition str_int :: "int \<Rightarrow> string" where
  "str_int i = (if i < 0 then CHR ''-'' # digits (nat (- i)) else digits (nat i))"

section \<open>Python floats\<close>

text \<open>
  A Python \<^verbatim>\<open>float\<close> is an IEEE-754 double. Its value is a rational, and every float
  operation returns the exact result rounded to 53 significant bits, ties to even: \<open>fl\<close>.
  \<open>expo x\<close> is the exponent of \<open>x\<close>, the integer \<open>k\<close> with \<open>2^k \<le> |x| < 2^(k+1)\<close>. The range of
  the exponent is not bounded here: the quantities of the source (image sizes, ratios of
  sizes, percentages) are far from overflow and underflow.
\<close>

type_synonym pyfloat = rat

definition rnd_even :: "rat \<Rightarrow> int" where
  "rnd_even x = (let f = \<lfloor>x\<rfloor>; d = x - of_int f in
                 if d < 1 / 2 \<or> (d = 1 / 2 \<and> even f) then f else f + 1)"

definition expo :: "rat \<Rightarrow> int" where
  "expo x = (let (a, b) = quotient_of \<bar>x\<bar>; k = bitlen a - bitlen b in
             if 2 powi k \<le> \<bar>x\<bar> then k else k - 1)"

definition fl :: "rat \<Rightarrow> pyfloat" where
  "fl x = (if x = 0 then 0
           else let e = expo x - 52 in of_int (rnd_even (x / 2 powi e)) * 2 powi e)"

text \<open>The conversion of an integer operand in mixed arithmetic, \<^verbatim>\<open>float(n)\<close>.\<close>

definition py_float :: "int \<Rightarrow> pyfloat" where
  "py_float n = fl (of_int n)"

text \<open>\<^verbatim>\<open>a / b\<close> on two integers (true division, correctly rounded) and on floats.\<close>

definition int_truediv :: "int \<Rightarrow> int \<Rightarrow> error + pyfloat" where
  "int_truediv a b =
     (if b = 0 then Inl (ZeroDivisionError ''division by zero'')
      else Inr (fl (of_int a / of_int b)))"

definition float_truediv :: "pyfloat \<Rightarrow> pyfloat \<Rightarrow> error + pyfloat" where
  "float_truediv x y =
     (if y = 0 then Inl (ZeroDivisionError ''float division by zero'')
      else Inr (fl (x / y)))"

definition float_mul :: "pyfloat \<Rightarrow> pyfloat \<Rightarrow> pyfloat" where
  "float_mul x y = fl (x * y)"

text \<open>\<^verbatim>\<open>int(x)\<close> truncates towards zero.\<close>

definition py_int :: "pyfloat \<Rightarrow> int" where
  "py_int x = (if 0 \<le> x then \<lfloor>x\<rfloor> else \<lceil>x\<rceil>)"

section \<open>The imaging library\<close>

text \<open>
  The source decodes, transforms and encodes through the imaging library (PIL). An image is
  its size, its mode and its raster. No claim depends on pixel values, so the raster is the
  term of library operations that produced it: nothing is assumed of resampling, blurring
  or pasting but that equal operations on equal rasters give equal rasters.
\<close>

datatype pixels =
    Decoded bytes
  | Solid int int int
  | Resized pixels int int
  | Blurred pixels int
  | Pasted pixels pixels int int
  | PastedMask pixels pixels pixels
  | Converted pixels string
  | LastBand pixels

record image =
  img_width :: int
  img_height :: int
  img_mode :: string
  img_format :: string
  img_pix :: pixels

text \<open>
  The codecs are parameters: \<open>pil_open\<close> is \<^verbatim>\<open>Image.open(io.BytesIO(data))\<close>
  (\<open>None\<close>: the library cannot identify the data; an image that opens is taken to load),
  \<open>pil_verify\<close> is \<^verbatim>\<open>img.verify()\<close> (\<open>Some e\<close>: it raises \<open>e\<close>), \<open>pil_save_png\<close> and
  \<open>pil_save_jpeg\<close> are \<^verbatim>\<open>img.save(output, format=..., optimize=True)\<close> followed by
  \<^verbatim>\<open>output.getvalue()\<close>; an encoder raises on a mode its format cannot store.
  \<open>pil_repr\<close> is the \<^verbatim>\<open>repr\<close> of the \<^verbatim>\<open>io.BytesIO\<close> stream that the call allocates for the data:
  it holds an address, so it belongs to the invocation, not to the data, and two
  invocations are two libraries that differ in \<open>pil_repr\<close> at most.
\<close>

record pil =
  pil_open :: "bytes \<Rightarrow> image option"
  pil_verify :: "bytes \<Rightarrow> error option"
  pil_save_png :: "image \<Rightarrow> error + bytes"
  pil_save_jpeg :: "image \<Rightarrow> int \<Rightarrow> error + bytes"
  pil_repr :: "bytes \<Rightarrow> string"

definition image_open :: "pil \<Rightarrow> bytes \<Rightarrow> error + image" where
  "image_open L image_data =
     (case pil_open L image_data of
        None \<Rightarrow> Inl (UnidentifiedImageError (pil_repr L image_data))
      | Some img \<Rightarrow> Inr img)"

text \<open>\<^verbatim>\<open>Image.new(mode, size, (255, 255, 255))\<close>; the library refuses a negative size.\<close>

definition image_new :: "string \<Rightarrow> int \<Rightarrow> int \<Rightarrow> error + image" where
  "image_new m w h =
     (if w < 0 \<or> h < 0 then Inl (ValueError ''Width and height must be >= 0'')
      else Inr \<lparr>img_width = w, img_height = h, img_mode = m, img_format = [],
                img_pix = Solid 255 255 255\<rparr>)"

text \<open>\<^verbatim>\<open>img.resize((w, h), Image.Resampling.LANCZOS)\<close>; the library refuses a size below 1.\<close>

definition image_resize :: "image \<Rightarrow> int \<Rightarrow> int \<Rightarrow> error + image" where
  "image_resize img w h =
     (if w < 1 \<or> h < 1 then Inl (ValueError ''height and width must be > 0'')
      else Inr \<lparr>img_width = w, img_height = h, img_mode = img_mode img, img_format = [],
                img_pix = Resized (img_pix img) w h\<rparr>)"

definition image_blur :: "image \<Rightarrow> int \<Rightarrow> image" where
  "image_blur img radius = img\<lparr>img_format := [], img_pix := Blurred (img_pix img) radius\<rparr>"

text \<open>\<^verbatim>\<open>canvas.paste(layer, (x, y))\<close> and \<^verbatim>\<open>canvas.paste(layer, mask=...)\<close>: the canvas keeps its size and mode.\<close>

definition image_paste :: "image \<Rightarrow> image \<Rightarrow> int \<Rightarrow> int \<Rightarrow> image" where
  "image_paste canvas layer x y = canvas\<lparr>img_pix := Pasted (img_pix canvas) (img_pix layer) x y\<rparr>"

definition image_paste_mask :: "image \<Rightarrow> image \<Rightarrow> pixels option \<Rightarrow> image" where
  "image_paste_mask canvas layer alpha =
     (case alpha of
        None \<Rightarrow> canvas\<lparr>img_pix := Pasted (img_pix canvas) (img_pix layer) 0 0\<rparr>
      | Some m \<Rightarrow> canvas\<lparr>img_pix := PastedMask (img_pix canvas) (img_pix layer) m\<rparr>)"

definition image_convert :: "image \<Rightarrow> string \<Rightarrow> image" where
  "image_convert img m = img\<lparr>img_mode := m, img_format := [], img_pix := Converted (img_pix img) m\<rparr>"

section \<open>Compression: \<^verbatim>\<open>compress_image\<close>\<close>

text \<open>The conversion to RGB that \<^verbatim>\<open>compress_image\<close> and \<^verbatim>\<open>strip_exif\<close> start with.\<close>

definition flatten_rgb :: "image \<Rightarrow> error + image" where
  "flatten_rgb img =
     (if img_mode img \<in> {''RGBA'', ''LA'', ''P''} then
        (case image_new ''RGB'' (img_width img) (img_height img) of
           Inl e \<Rightarrow> Inl e
         | Inr background \<Rightarrow>
            (let img1 = (if img_mode img = ''P'' then image_convert img ''RGBA'' else img);
                 alpha = (if img_mode img1 = ''RGBA'' then Some (LastBand (img_pix img1)) else None)
             in Inr (image_paste_mask background img1 alpha)))
      else Inr img)"

text \<open>
  The \<^verbatim>\<open>while min_quality <= max_quality\<close> loop: \<open>save q\<close> encodes at quality \<open>q\<close>, and a
  result is the triple \<^verbatim>\<open>(compressed_data, compressed_size, mid_quality)\<close>.
\<close>

type_synonym compressed = "bytes \<times> int \<times> int"

function compress_search ::
  "(int \<Rightarrow> error + bytes) \<Rightarrow> int \<Rightarrow> int \<Rightarrow> int \<Rightarrow> compressed option \<Rightarrow> error + compressed option"
where
  "compress_search save target_size_bytes min_quality max_quality best_result =
     (if min_quality \<le> max_quality then
        (let mid_quality = (min_quality + max_quality) div 2 in
         case save mid_quality of
           Inl e \<Rightarrow> Inl e
         | Inr compressed_data \<Rightarrow>
            (let compressed_size = int (length compressed_data) in
             if compressed_size \<le> target_size_bytes then
               compress_search save target_size_bytes (mid_quality + 1) max_quality
                 (Some (compressed_data, compressed_size, mid_quality))
             else
               compress_search save target_size_bytes min_quality (mid_quality - 1) best_result))
      else Inr best_result)"
  by pat_completeness auto
termination
  by (relation "measure (\<lambda>(save, t, lo, hi, best). nat (hi - lo + 1))") auto

declare compress_search.simps [simp del]

definition save_at :: "pil \<Rightarrow> image \<Rightarrow> int \<Rightarrow> error + compressed" where
  "save_at L img q =
     (case pil_save_jpeg L img q of
        Inl e \<Rightarrow> Inl e
      | Inr compressed_data \<Rightarrow> Inr (compressed_data, int (length compressed_data), q))"

definition compress_image :: "pil \<Rightarrow> bytes \<Rightarrow> int option \<Rightarrow> int option \<Rightarrow> error + compressed" where
  "compress_image L image_data target_size_kb quality =
     reraise ''Error compressing image: ''
       (case image_open L image_data of
          Inl e \<Rightarrow> Inl e
        | Inr img0 \<Rightarrow>
           (case flatten_rgb img0 of
              Inl e \<Rightarrow> Inl e
            | Inr img \<Rightarrow>
               if truthy target_size_kb then
                 (let target_size_bytes = the target_size_kb * 1024 in
                  case compress_search (pil_save_jpeg L img) target_size_bytes 1 100 None of
                    Inl e \<Rightarrow> Inl e
                  | Inr (Some best_result) \<Rightarrow> Inr best_result
                  | Inr None \<Rightarrow> save_at L img 1)
               else if truthy quality then save_at L img (the quality)
               else save_at L img 85))"

text \<open>
  \<open>best_quality enc t lo hi q\<close>: among the qualities \<open>lo..hi\<close>, \<open>q\<close> is the largest whose encoding
  \<open>enc q\<close> takes at most \<open>t\<close> bytes.
\<close>

definition best_quality :: "(int \<Rightarrow> bytes) \<Rightarrow> int \<Rightarrow> int \<Rightarrow> int \<Rightarrow> int \<Rightarrow> bool" where
  "best_quality enc t lo hi q \<longleftrightarrow>
     lo \<le> q \<and> q \<le> hi \<and> int (length (enc q)) \<le> t \<and>
     (\<forall>q'. lo \<le> q' \<and> q' \<le> hi \<and> int (length (enc q')) \<le> t \<longrightarrow> q' \<le> q)"

section \<open>Resizing: \<^verbatim>\<open>resize_image\<close>\<close>

text \<open>
  The \<^verbatim>\<open>if percentage: ... elif width and height: ... else: raise\<close> chain that chooses the
  new size from the original one.
\<close>

definition scaled :: "int \<Rightarrow> pyfloat \<Rightarrow> int" where
  "scaled original factor = py_int (float_mul (py_float original) factor)"

definition resize_dims ::
  "int \<Rightarrow> int \<Rightarrow> int option \<Rightarrow> int option \<Rightarrow> int option \<Rightarrow> int option \<Rightarrow> int option
   \<Rightarrow> error + int \<times> int"
where
  "resize_dims original_width original_height width height percentage max_width max_height =
     (if truthy percentage then
        (let factor = fl (py_float (the percentage) / 100)
         in Inr (scaled original_width factor, scaled original_height factor))
      else if truthy width \<and> truthy height then Inr (the width, the height)
      else if truthy width then
        (case int_truediv (the width) original_width of
           Inl e \<Rightarrow> Inl e
         | Inr r \<Rightarrow> Inr (the width, scaled original_height r))
      else if truthy height then
        (case int_truediv (the height) original_height of
           Inl e \<Rightarrow> Inl e
         | Inr r \<Rightarrow> Inr (scaled original_width r, the height))
      else if truthy max_width \<or> truthy max_height then
        (case (if truthy max_width \<and> truthy max_height then
                 (case int_truediv (the max_width) original_width of
                    Inl e \<Rightarrow> Inl e
                  | Inr a \<Rightarrow>
                     (case int_truediv (the max_height) original_height of
                        Inl e \<Rightarrow> Inl e
                      | Inr b \<Rightarrow> Inr (min a b)))
               else if truthy max_width then int_truediv (the max_width) original_width
               else int_truediv (the max_height) original_height) of
           Inl e \<Rightarrow> Inl e
         | Inr factor \<Rightarrow>
            if 1 \<le> factor then Inr (original_width, original_height)
            else Inr (scaled original_width factor, scaled original_height factor))
      else Inl (Exception ''No resize parameters specified''))"

definition resize_image ::
  "pil \<Rightarrow> bytes \<Rightarrow> int option \<Rightarrow> int option \<Rightarrow> int option \<Rightarrow> int option \<Rightarrow> int option
   \<Rightarrow> error + bytes \<times> int \<times> int"
where
  "resize_image L image_data width height percentage max_width max_height =
     reraise ''Error resizing image: ''
       (case image_open L image_data of
          Inl e \<Rightarrow> Inl e
        | Inr img \<Rightarrow>
           (case resize_dims (img_width img) (img_height img)
                   width height percentage max_width max_height of
              Inl e \<Rightarrow> Inl e
            | Inr (new_width, new_height) \<Rightarrow>
               (case image_resize img new_width new_height of
                  Inl e \<Rightarrow> Inl e
                | Inr resized_img \<Rightarrow>
                   (case pil_save_png L resized_img of
                      Inl e \<Rightarrow> Inl e
                    | Inr png \<Rightarrow> Inr (png, new_width, new_height)))))"

section \<open>Blurred borders: \<^verbatim>\<open>add_blur_borders\<close>\<close>

text \<open>The size of the sharp layer (it fits inside the canvas) from the two ratios.\<close>

definition sharp_dims :: "int \<Rightarrow> int \<Rightarrow> pyfloat \<Rightarrow> pyfloat \<Rightarrow> error + int \<times> int" where
  "sharp_dims target_width target_height img_ratio canvas_ratio =
     (if img_ratio > canvas_ratio then
        (case float_truediv (py_float target_width) img_ratio of
           Inl e \<Rightarrow> Inl e
         | Inr h \<Rightarrow> Inr (target_width, py_int h))
      else Inr (py_int (float_mul (py_float target_height) img_ratio), target_height))"

text \<open>The size of the background layer (it covers the canvas); the ratios are computed anew.\<close>

definition background_dims :: "int \<Rightarrow> int \<Rightarrow> int \<Rightarrow> int \<Rightarrow> error + int \<times> int" where
  "background_dims w h target_width target_height =
     (case int_truediv w h of
        Inl e \<Rightarrow> Inl e
      | Inr img_ratio \<Rightarrow>
         (case int_truediv target_width target_height of
            Inl e \<Rightarrow> Inl e
          | Inr canvas_ratio \<Rightarrow>
             if img_ratio > canvas_ratio then
               Inr (py_int (float_mul (py_float target_height) img_ratio), target_height)
             else
               (case int_truediv h w of
                  Inl e \<Rightarrow> Inl e
                | Inr r \<Rightarrow> Inr (target_width, py_int (float_mul (py_float target_width) r)))))"

text \<open>Everything between \<^verbatim>\<open>Image.open\<close> and \<^verbatim>\<open>canvas.save\<close>: the canvas that is encoded.\<close>

definition blur_canvas :: "image \<Rightarrow> int \<Rightarrow> int \<Rightarrow> int \<Rightarrow> error + image" where
  "blur_canvas img target_width target_height blur_amount =
     (case image_new ''RGB'' target_width target_height of
        Inl e \<Rightarrow> Inl e
      | Inr canvas \<Rightarrow>
     (case int_truediv (img_width img) (img_height img) of
        Inl e \<Rightarrow> Inl e
      | Inr img_ratio \<Rightarrow>
     (case int_truediv target_width target_height of
        Inl e \<Rightarrow> Inl e
      | Inr canvas_ratio \<Rightarrow>
     (case sharp_dims target_width target_height img_ratio canvas_ratio of
        Inl e \<Rightarrow> Inl e
      | Inr (new_width, new_height) \<Rightarrow>
     (case image_resize img new_width new_height of
        Inl e \<Rightarrow> Inl e
      | Inr img_resized \<Rightarrow>
     (case background_dims (img_width img) (img_height img) target_width target_height of
        Inl e \<Rightarrow> Inl e
      | Inr (bg_width, bg_height) \<Rightarrow>
     (case image_resize img bg_width bg_height of
        Inl e \<Rightarrow> Inl e
      | Inr img_bg \<Rightarrow>
         (let img_blurred = image_blur img_bg blur_amount;
              bg_x = (target_width - bg_width) div 2;
              bg_y = (target_height - bg_height) div 2;
              canvas1 = image_paste canvas img_blurred bg_x bg_y;
              img_x = (target_width - new_width) div 2;
              img_y = (target_height - new_height) div 2
          in Inr (image_paste canvas1 img_resized img_x img_y)))))))))"

definition add_blur_borders :: "pil \<Rightarrow> bytes \<Rightarrow> int \<Rightarrow> int \<Rightarrow> int \<Rightarrow> error + bytes" where
  "add_blur_borders L image_data target_width target_height blur_amount =
     reraise ''Error processing blur: ''
       (case image_open L image_data of
          Inl e \<Rightarrow> Inl e
        | Inr img \<Rightarrow>
           (case blur_canvas img target_width target_height blur_amount of
              Inl e \<Rightarrow> Inl e
            | Inr canvas \<Rightarrow> pil_save_png L canvas))"

section \<open>Packs: \<^verbatim>\<open>process_pack\<close>\<close>

text \<open>
  An entry of \<^verbatim>\<open>pack_config['outputs']\<close> is a dictionary; a key it lacks is \<open>None\<close>. The
  configuration itself may lack \<^verbatim>\<open>'outputs'\<close>.
\<close>

record output_spec =
  o_name :: "string option"
  o_width :: "int option"
  o_height :: "int option"
  o_method :: "string option"
  o_compress :: "bool option"
  o_compress_target :: "int option"

record pack_config =
  outputs :: "output_spec list option"

record pack_result =
  r_data :: bytes
  r_filename :: string
  r_width :: "int option"
  r_height :: "int option"
  r_size :: int
  r_name :: string

text \<open>
  \<^verbatim>\<open>datetime.now()\<close> reads the clock of the machine: the clock is an input of the model,
  \<open>clock n\<close> being what the \<open>n\<close>-th reading of a call returns.
  \<open>strftime\<close> is \<^verbatim>\<open>.strftime("%Y%m%d_%H%M%S")\<close>.
\<close>

record datetime =
  dt_year :: nat
  dt_month :: nat
  dt_day :: nat
  dt_hour :: nat
  dt_minute :: nat
  dt_second :: nat

definition zero_pad :: "nat \<Rightarrow> nat \<Rightarrow> string" where
  "zero_pad k n = replicate (k - length (digits n)) CHR ''0'' @ digits n"

definition strftime :: "datetime \<Rightarrow> string" where
  "strftime t = zero_pad 4 (dt_year t) @ zero_pad 2 (dt_month t) @ zero_pad 2 (dt_day t) @ ''_'' @
                zero_pad 2 (dt_hour t) @ zero_pad 2 (dt_minute t) @ zero_pad 2 (dt_second t)"

text \<open>
  \<^verbatim>\<open>add_blur_borders(image_data, width, height)\<close> as the pack calls it, with the default
  blur of 30: a missing width or height reaches \<^verbatim>\<open>Image.new\<close>, which refuses it.
\<close>

definition none_lt_int :: string where
  "none_lt_int = [CHR 0x27] @ ''<'' @ [CHR 0x27] @ '' not supported between instances of '' @
                 [CHR 0x27] @ ''NoneType'' @ [CHR 0x27] @ '' and '' @
                 [CHR 0x27] @ ''int'' @ [CHR 0x27]"

definition pack_blur :: "pil \<Rightarrow> bytes \<Rightarrow> int option \<Rightarrow> int option \<Rightarrow> error + bytes" where
  "pack_blur L image_data width height =
     (case (width, height) of
        (Some w, Some h) \<Rightarrow> add_blur_borders L image_data w h 30
      | (Some w, None) \<Rightarrow>
          reraise ''Error processing blur: ''
            (case image_open L image_data of
               Inl e \<Rightarrow> Inl e
             | Inr img \<Rightarrow>
                if w < 0 then Inl (ValueError ''Width and height must be >= 0'')
                else Inl (TypeError none_lt_int))
      | (None, _) \<Rightarrow>
          reraise ''Error processing blur: ''
            (case image_open L image_data of
               Inl e \<Rightarrow> Inl e
             | Inr img \<Rightarrow> Inl (TypeError none_lt_int)))"

text \<open>
  The body of the \<^verbatim>\<open>for output in outputs\<close> loop up to the result it appends: \<open>None\<close> is
  \<^verbatim>\<open>continue\<close>. \<open>stamp\<close> is the formatted reading of the clock.
\<close>

definition pack_compress :: "pil \<Rightarrow> bytes \<Rightarrow> int option \<Rightarrow> error + bytes" where
  "pack_compress L processed_data compress_target =
     (case (if truthy compress_target
            then compress_image L processed_data (Some (the compress_target div 1024)) None
            else compress_image L processed_data None (Some 85)) of
        Inl e \<Rightarrow> Inl e
      | Inr (compressed_data, actual_size, quality) \<Rightarrow> Inr compressed_data)"

definition pack_output :: "pil \<Rightarrow> bytes \<Rightarrow> output_spec \<Rightarrow> string \<Rightarrow> error + pack_result option" where
  "pack_output L image_data out stamp =
     (let name = (case o_name out of None \<Rightarrow> ''output'' | Some n \<Rightarrow> n);
          width = o_width out;
          height = o_height out;
          meth = (case o_method out of None \<Rightarrow> ''blur'' | Some m \<Rightarrow> m);
          compress = (case o_compress out of None \<Rightarrow> False | Some c \<Rightarrow> c);
          compress_target = o_compress_target out
      in if meth \<noteq> ''blur'' \<and> meth \<noteq> ''resize'' then Inr None
         else
          (case (if meth = ''blur'' then pack_blur L image_data width height
                 else (case resize_image L image_data width height None None None of
                         Inl e \<Rightarrow> Inl e
                       | Inr (png, new_width, new_height) \<Rightarrow> Inr png)) of
             Inl e \<Rightarrow> Inl e
           | Inr processed \<Rightarrow>
              (case (if compress then pack_compress L processed compress_target
                     else Inr processed) of
                 Inl e \<Rightarrow> Inl e
               | Inr processed_data \<Rightarrow>
                  Inr (Some \<lparr>r_data = processed_data,
                             r_filename = name @ ''_'' @ stamp @ ''.png'',
                             r_width = width, r_height = height,
                             r_size = int (length processed_data), r_name = name\<rparr>))))"

text \<open>The loop: \<open>n\<close> counts the readings of the clock, \<open>results\<close> is the list built so far.\<close>

fun pack_loop ::
  "pil \<Rightarrow> (nat \<Rightarrow> datetime) \<Rightarrow> bytes \<Rightarrow> output_spec list \<Rightarrow> nat \<Rightarrow> pack_result list
   \<Rightarrow> error + pack_result list"
where
  "pack_loop L clock image_data [] n results = Inr results"
| "pack_loop L clock image_data (out # rest) n results =
     (case pack_output L image_data out (strftime (clock n)) of
        Inl e \<Rightarrow> Inl e
      | Inr None \<Rightarrow> pack_loop L clock image_data rest n results
      | Inr (Some r) \<Rightarrow> pack_loop L clock image_data rest (Suc n) (results @ [r]))"

text \<open>\<^verbatim>\<open>pack_config.get('outputs', [])\<close>\<close>

definition config_outputs :: "pack_config \<Rightarrow> output_spec list" where
  "config_outputs config = (case outputs config of None \<Rightarrow> [] | Some os \<Rightarrow> os)"

definition process_pack ::
  "pil \<Rightarrow> (nat \<Rightarrow> datetime) \<Rightarrow> bytes \<Rightarrow> pack_config \<Rightarrow> error + pack_result list"
where
  "process_pack L clock image_data config =
     reraise ''Error processing pack: ''
       (pack_loop L clock image_data (config_outputs config) 0 [])"

text \<open>
  To state properties of a pack: an entry is recognized when its method, \<^verbatim>\<open>'blur'\<close> if it
  has none, is \<^verbatim>\<open>'blur'\<close> or \<^verbatim>\<open>'resize'\<close>; \<open>spec_name\<close> is its name, \<^verbatim>\<open>'output'\<close> if it has
  none; \<open>without_filename\<close> forgets the file name of a result.
\<close>

definition recognized :: "output_spec \<Rightarrow> bool" where
  "recognized out \<longleftrightarrow>
     (case o_method out of None \<Rightarrow> True | Some m \<Rightarrow> m = ''blur'' \<or> m = ''resize'')"

definition spec_name :: "output_spec \<Rightarrow> string" where
  "spec_name out = (case o_name out of None \<Rightarrow> ''output'' | Some n \<Rightarrow> n)"

definition without_filename :: "pack_result \<Rightarrow> pack_result" where
  "without_filename r = r\<lparr>r_filename := []\<rparr>"

text \<open>An entry with its compression target taken away when the target is from 0 to 1023.\<close>

definition without_small_target :: "output_spec \<Rightarrow> output_spec" where
  "without_small_target out =
     (case o_compress_target out of
        None \<Rightarrow> out
      | Some t \<Rightarrow> if 0 \<le> t \<and> t < 1024 then out\<lparr>o_compress_target := None\<rparr> else out)"

section \<open>Metadata: \<^verbatim>\<open>get_image_info\<close>\<close>

record image_info =
  info_width :: int
  info_height :: int
  info_format :: string
  info_size :: int
  info_mode :: string

definition get_image_info :: "pil \<Rightarrow> bytes \<Rightarrow> error + image_info" where
  "get_image_info L image_data =
     reraise ''Error getting image info: ''
       (case image_open L image_data of
          Inl e \<Rightarrow> Inl e
        | Inr img \<Rightarrow>
           Inr \<lparr>info_width = img_width img, info_height = img_height img,
                info_format = img_format img, info_size = int (length image_data),
                info_mode = img_mode img\<rparr>)"

section \<open>Validation: \<^verbatim>\<open>validate_image_file\<close> and \<^verbatim>\<open>validate_file_upload\<close>\<close>

text \<open>\<^verbatim>\<open>.lower()\<close> on ASCII, \<^verbatim>\<open>', '.join(...)\<close>, \<^verbatim>\<open>.lstrip('.')\<close> and \<^verbatim>\<open>.rfind(c)\<close>.\<close>

definition lower_char :: "char \<Rightarrow> char" where
  "lower_char c =
     (case map_of (zip ''ABCDEFGHIJKLMNOPQRSTUVWXYZ'' ''abcdefghijklmnopqrstuvwxyz'') c of
        None \<Rightarrow> c
      | Some l \<Rightarrow> l)"

definition lower :: "string \<Rightarrow> string" where
  "lower s = map lower_char s"

fun join :: "string \<Rightarrow> string list \<Rightarrow> string" where
  "join sep [] = []"
| "join sep [x] = x"
| "join sep (x # y # ys) = x @ sep @ join sep (y # ys)"

definition lstrip_dots :: "string \<Rightarrow> string" where
  "lstrip_dots s = dropWhile (\<lambda>c. c = CHR ''.'') s"

definition rfind :: "char \<Rightarrow> string \<Rightarrow> int" where
  "rfind c p =
     (if c \<in> set p then int (length p) - 1 - int (length (takeWhile (\<lambda>x. x \<noteq> c) (rev p)))
      else - 1)"

text \<open>
  \<^verbatim>\<open>os.path.splitext\<close> (POSIX): the extension starts at the last dot of the last path
  component, unless only dots precede it there.
\<close>

definition splitext :: "string \<Rightarrow> string \<times> string" where
  "splitext p =
     (let sepIndex = rfind CHR ''/'' p; dotIndex = rfind CHR ''.'' p
      in if dotIndex > sepIndex \<and>
            list_ex (\<lambda>c. c \<noteq> CHR ''.'')
              (take (nat (dotIndex - (sepIndex + 1))) (drop (nat (sepIndex + 1)) p))
         then (take (nat dotIndex) p, drop (nat dotIndex) p)
         else (p, []))"

text \<open>\<^verbatim>\<open>filename.lower().split('.')[-1]\<close>: what follows the last dot, or the whole name.\<close>

definition last_dot_part :: "string \<Rightarrow> string" where
  "last_dot_part s = rev (takeWhile (\<lambda>c. c \<noteq> CHR ''.'') (rev s))"

text \<open>
  The extension checks. A \<^verbatim>\<open>None\<close> or empty \<^verbatim>\<open>allowed_extensions\<close> is falsy and turns
  the check off.
\<close>

definition extension_allowed :: "string \<Rightarrow> string list option \<Rightarrow> bool" where
  "extension_allowed filename allowed_extensions =
     (case allowed_extensions of
        None \<Rightarrow> True
      | Some exts \<Rightarrow>
         exts = [] \<or> lstrip_dots (lower (snd (splitext filename))) \<in> set (map lower exts))"

definition upload_extension_allowed :: "string \<Rightarrow> string list option \<Rightarrow> bool" where
  "upload_extension_allowed filename allowed_extensions =
     (case allowed_extensions of
        None \<Rightarrow> True
      | Some exts \<Rightarrow> exts = [] \<or> last_dot_part (lower filename) \<in> set (map lower exts))"

text \<open>The body of the \<^verbatim>\<open>try\<close> of \<^verbatim>\<open>validate_image_file\<close>, then its handler.\<close>

definition validate_image_checks ::
  "pil \<Rightarrow> bytes \<Rightarrow> string \<Rightarrow> int \<Rightarrow> string list option \<Rightarrow> error + bool"
where
  "validate_image_checks L file_data filename max_size allowed_extensions =
     (if int (length file_data) > max_size then
        Inl (Exception (''File size exceeds maximum allowed size of '' @
                        str_int (max_size div (1024 * 1024)) @ ''MB''))
      else if \<not> extension_allowed filename allowed_extensions then
        Inl (Exception (''File type not allowed. Allowed types: '' @
                        join '', '' (the allowed_extensions)))
      else
        (case image_open L file_data of
           Inl e \<Rightarrow> Inl e
         | Inr img0 \<Rightarrow>
            (case pil_verify L file_data of
               Some e \<Rightarrow> Inl e
             | None \<Rightarrow>
                (case image_open L file_data of
                   Inl e \<Rightarrow> Inl e
                 | Inr img \<Rightarrow>
                    if img_width img < 1 \<or> img_height img < 1 then
                      Inl (Exception ''Invalid image dimensions'')
                    else if img_width img > 4000 \<or> img_height img > 4000 then
                      Inl (Exception ''Image dimensions too large (max 4000x4000)'')
                    else Inr True))))"

definition validate_image_file ::
  "pil \<Rightarrow> bytes \<Rightarrow> string \<Rightarrow> int \<Rightarrow> string list option \<Rightarrow> error + bool"
where
  "validate_image_file L file_data filename max_size allowed_extensions =
     (case validate_image_checks L file_data filename max_size allowed_extensions of
        Inl e \<Rightarrow>
          if sublist ''cannot identify image file'' (message e)
          then Inl (Exception ''Invalid image file'')
          else Inl e
      | Inr v \<Rightarrow> Inr v)"

text \<open>The signatures and the patterns of \<^verbatim>\<open>validate_file_upload\<close> (utils/security.py).\<close>

definition magic_bytes :: "bytes list" where
  "magic_bytes =
     [[CHR 0xFF, CHR 0xD8, CHR 0xFF],
      [CHR 0x89, CHR ''P'', CHR ''N'', CHR ''G'', CHR 0x0D, CHR 0x0A, CHR 0x1A, CHR 0x0A],
      ''GIF87a'', ''GIF89a'', ''RIFF'']"

definition dangerous_patterns :: "bytes list" where
  "dangerous_patterns =
     [''<script'', ''javascript:'', ''vbscript:'', ''data:text/html'', ''<?php'', ''<%'',
      ''eval('', ''exec('']"

definition is_valid_image :: "bytes \<Rightarrow> bool" where
  "is_valid_image file_data = list_ex (\<lambda>magic. prefix magic file_data) magic_bytes"

definition validate_file_upload ::
  "bytes \<Rightarrow> string \<Rightarrow> int \<Rightarrow> string list option \<Rightarrow> error + bool"
where
  "validate_file_upload file_data filename max_size allowed_extensions =
     (if int (length file_data) > max_size then
        Inl (Exception (''File too large. Maximum size: '' @
                        str_int (max_size div (1024 * 1024)) @ ''MB''))
      else if \<not> upload_extension_allowed filename allowed_extensions then
        Inl (Exception (''File type not allowed. Allowed: '' @
                        join '', '' (the allowed_extensions)))
      else if \<not> is_valid_image file_data then Inl (Exception ''Invalid file format'')
      else if list_ex (\<lambda>pattern. sublist pattern (lower file_data)) dangerous_patterns then
        Inl (Exception ''Dangerous content detected in file'')
      else Inr True)"

section \<open>Two invocations\<close>

text \<open>
  Two invocations of an operation on the same arguments see the same codecs, and differ in
  the address of the streams they allocate at most: \<open>same_codecs\<close>. \<open>forget_error\<close> keeps of
  an outcome the value returned, or that an exception was raised.
\<close>

definition same_codecs :: "pil \<Rightarrow> pil \<Rightarrow> bool" where
  "same_codecs L L' \<longleftrightarrow>
     pil_open L = pil_open L' \<and> pil_verify L = pil_verify L' \<and>
     pil_save_png L = pil_save_png L' \<and> pil_save_jpeg L = pil_save_jpeg L'"

definition forget_error :: "error + 'a \<Rightarrow> unit + 'a" where
  "forget_error r = (case r of Inl e \<Rightarrow> Inl () | Inr v \<Rightarrow> Inr v)"

section \<open>A stand-in library\<close>

text \<open>
  The theorems below hold for every library. To run the model on concrete inputs, this one
  decodes every non-empty buffer to an image of the given size and mode, writes a JPEG of
  \<open>jpeg_len q\<close> bytes at quality \<open>q\<close>, and a PNG of as many bytes as the image is wide.
\<close>

definition stub_pil :: "int \<Rightarrow> int \<Rightarrow> string \<Rightarrow> (int \<Rightarrow> nat) \<Rightarrow> pil" where
  "stub_pil w h m jpeg_len =
     \<lparr>pil_open = (\<lambda>data. if data = [] then None
                          else Some \<lparr>img_width = w, img_height = h, img_mode = m,
                                     img_format = ''PNG'', img_pix = Decoded data\<rparr>),
      pil_verify = (\<lambda>data. None),
      pil_save_png = (\<lambda>img. Inr (''PNG'' @ replicate (nat (img_width img)) CHR ''.'')),
      pil_save_jpeg = (\<lambda>img q. Inr (replicate (jpeg_len q) CHR ''J'')),
      pil_repr = (\<lambda>data. ''<_io.BytesIO object at 0x7f3a5c0e1d50>'')\<rparr>"

text \<open>A size profile that grows with the quality.\<close>

definition growing :: "int \<Rightarrow> nat" where
  "growing q = 1000 + 10 * nat q"

text \<open>
  A second stand-in library decodes what a bitmap decoder decodes: a buffer that starts
  with \<^verbatim>\<open>BM\<close>, states its own length, a 40-byte info header, one plane, 24 bits per
  pixel, no compression, and holds exactly the rows of pixels that its width and height
  ask for (each row padded to a multiple of four bytes). Numbers are little-endian.
  \<open>bmp_1x1\<close> is such a file: one white pixel, 58 bytes.
\<close>

definition le_bytes :: "bytes \<Rightarrow> nat" where
  "le_bytes bs = foldr (\<lambda>c n. of_char c + 256 * n) bs 0"

definition field :: "bytes \<Rightarrow> nat \<Rightarrow> nat \<Rightarrow> nat" where
  "field d off len = le_bytes (take len (drop off d))"

definition bmp_open :: "bytes \<Rightarrow> image option" where
  "bmp_open d =
     (let w = field d 18 4; h = field d 22 4
      in if take 2 d = ''BM'' \<and> field d 2 4 = length d \<and> field d 10 4 = 54 \<and>
            field d 14 4 = 40 \<and> 1 \<le> w \<and> 1 \<le> h \<and> field d 26 2 = 1 \<and>
            field d 28 2 = 24 \<and> field d 30 4 = 0 \<and>
            length d = 54 + (3 * w + 3) div 4 * 4 * h
         then Some \<lparr>img_width = int w, img_height = int h, img_mode = ''RGB'',
                    img_format = ''BMP'', img_pix = Decoded d\<rparr>
         else None)"

definition bmp_pil :: pil where
  "bmp_pil = (stub_pil 1 1 ''RGB'' growing)\<lparr>pil_open := bmp_open\<rparr>"

definition bmp_1x1 :: bytes where
  "bmp_1x1 =
     [CHR ''B'', CHR ''M'', CHR 0x3A, CHR 0x00, CHR 0x00, CHR 0x00,
      CHR 0x00, CHR 0x00, CHR 0x00, CHR 0x00, CHR 0x36, CHR 0x00, CHR 0x00, CHR 0x00,
      CHR 0x28, CHR 0x00, CHR 0x00, CHR 0x00, CHR 0x01, CHR 0x00, CHR 0x00, CHR 0x00,
      CHR 0x01, CHR 0x00, CHR 0x00, CHR 0x00, CHR 0x01, CHR 0x00, CHR 0x18, CHR 0x00,
      CHR 0x00, CHR 0x00, CHR 0x00, CHR 0x00, CHR 0x04, CHR 0x00, CHR 0x00, CHR 0x00,
      CHR 0x13, CHR 0x0B, CHR 0x00, CHR 0x00, CHR 0x13, CHR 0x0B, CHR 0x00, CHR 0x00,
      CHR 0x00, CHR 0x00, CHR 0x00, CHR 0x00, CHR 0x00, CHR 0x00, CHR 0x00, CHR 0x00,
      CHR 0xFF, CHR 0xFF, CHR 0xFF, CHR 0x00]"

text \<open>A pack of three entries, the second of an unknown method.\<close>

definition sample_pack :: pack_config where
  "sample_pack =
     \<lparr>outputs = Some
        [\<lparr>o_name = Some ''square'', o_width = Some 8, o_height = Some 8,
          o_method = Some ''resize'', o_compress = None, o_compress_target = None\<rparr>,
         \<lparr>o_name = Some ''cropped'', o_width = Some 6, o_height = Some 6,
          o_method = Some ''crop'', o_compress = None, o_compress_target = None\<rparr>,
         \<lparr>o_name = None, o_width = Some 5, o_height = Some 4,
          o_method = Some ''resize'', o_compress = None, o_compress_target = None\<rparr>]\<rparr>"

text \<open>A pack of one entry that is resized and then compressed to the target \<open>t\<close>.\<close>

definition compressed_pack :: "int \<Rightarrow> pack_config" where
  "compressed_pack t =
     \<lparr>outputs = Some
        [\<lparr>o_name = Some ''thumb'', o_width = Some 5, o_height = Some 4,
          o_method = Some ''resize'', o_compress = Some True, o_compress_target = Some t\<rparr>]\<rparr>"

text \<open>Two clocks: \<open>n\<close> seconds after 07:05 and after 19:05 on 9 March 2024.\<close>

definition morning :: "nat \<Rightarrow> datetime" where
  "morning n = \<lparr>dt_year = 2024, dt_month = 3, dt_day = 9,
                dt_hour = 7, dt_minute = 5, dt_second = n\<rparr>"

definition evening :: "nat \<Rightarrow> datetime" where
  "evening n = \<lparr>dt_year = 2024, dt_month = 3, dt_day = 9,
                dt_hour = 19, dt_minute = 5, dt_second = n\<rparr>"

text \<open>The stand-in library in an invocation whose streams lie at another address.\<close>

definition stub_pil_elsewhere :: pil where
  "stub_pil_elsewhere =
     (stub_pil 4 3 ''RGB'' growing)
       \<lparr>pil_repr := (\<lambda>data. ''<_io.BytesIO object at 0x7f3a5c0e2110>'')\<rparr>"

section \<open>The quality search\<close>

text \<open>If no quality of the interval meets the target, the search records nothing.\<close>

lemma compress_search_none:
  "\<forall>q. lo \<le> q \<and> q \<le> hi \<longrightarrow> (\<exists>d. save q = Inr d \<and> t < int (length d))
   \<Longrightarrow> compress_search save t lo hi best = Inr best"
proof (induction save t lo hi best rule: compress_search.induct)
  case (1 save t lo hi best)
  show ?case
  proof (cases "lo \<le> hi")
    case False
    then show ?thesis by (simp add: compress_search.simps)
  next
    case True
    let ?mid = "(lo + hi) div 2"
    from True have m: "lo \<le> ?mid" "?mid \<le> hi" by auto
    with "1.prems" obtain d where d: "save ?mid = Inr d" "t < int (length d)" by blast
    have "compress_search save t lo (?mid - 1) best = Inr best"
      using "1.IH"(2)[OF True refl d(1) refl] d(2) "1.prems" m by auto
    then show ?thesis
      using True d by (subst compress_search.simps) (simp add: Let_def)
  qed
qed


text \<open>
  When the size of the encoding grows with the quality, the search ends with the largest
  quality of the interval that meets the target.
\<close>

lemma compress_search_max:
  assumes "\<forall>q. lo \<le> q \<and> q \<le> hi \<longrightarrow> save q = Inr (enc q)"
      and "\<forall>q q'. lo \<le> q \<and> q \<le> q' \<and> q' \<le> hi \<longrightarrow> length (enc q) \<le> length (enc q')"
  shows "\<exists>r. compress_search save t lo hi best = Inr r \<and>
     (if \<exists>q. lo \<le> q \<and> q \<le> hi \<and> int (length (enc q)) \<le> t
      then \<exists>q. best_quality enc t lo hi q \<and> r = Some (enc q, int (length (enc q)), q)
      else r = best)"
  using assms
proof (induction save t lo hi best rule: compress_search.induct)
  case (1 save t lo hi best)
  show ?case
  proof (cases "lo \<le> hi")
    case False
    then show ?thesis by (auto simp add: compress_search.simps)
  next
    case True
    let ?mid = "(lo + hi) div 2"
    from True have m: "lo \<le> ?mid" "?mid \<le> hi" by auto
    with "1.prems" have d: "save ?mid = Inr (enc ?mid)" by blast
    show ?thesis
    proof (cases "int (length (enc ?mid)) \<le> t")
      case le: True
      let ?b = "Some (enc ?mid, int (length (enc ?mid)), ?mid)"
      have p1: "\<forall>q. ?mid + 1 \<le> q \<and> q \<le> hi \<longrightarrow> save q = Inr (enc q)"
        using "1.prems"(1) m by auto
      have p2: "\<forall>q q'. ?mid + 1 \<le> q \<and> q \<le> q' \<and> q' \<le> hi \<longrightarrow> length (enc q) \<le> length (enc q')"
        using "1.prems"(2) m by auto
      from "1.IH"(1)[OF True refl d refl le p1 p2]
      obtain r where r: "compress_search save t (?mid + 1) hi ?b = Inr r"
        and c: "if \<exists>q. ?mid + 1 \<le> q \<and> q \<le> hi \<and> int (length (enc q)) \<le> t
                then \<exists>q. best_quality enc t (?mid + 1) hi q \<and> r = Some (enc q, int (length (enc q)), q)
                else r = ?b" by blast
      have eq: "compress_search save t lo hi best = Inr r"
        using True d le r by (subst compress_search.simps) (simp add: Let_def)
      have ex: "\<exists>q. lo \<le> q \<and> q \<le> hi \<and> int (length (enc q)) \<le> t"
        using m le by blast
      have "\<exists>q. best_quality enc t lo hi q \<and> r = Some (enc q, int (length (enc q)), q)"
      proof (cases "\<exists>q. ?mid + 1 \<le> q \<and> q \<le> hi \<and> int (length (enc q)) \<le> t")
        case True
        with c obtain q where q: "best_quality enc t (?mid + 1) hi q" "r = Some (enc q, int (length (enc q)), q)"
          by auto
        from q(1) have a: "?mid + 1 \<le> q" "q \<le> hi" "int (length (enc q)) \<le> t"
          and b: "\<And>q'. ?mid + 1 \<le> q' \<Longrightarrow> q' \<le> hi \<Longrightarrow> int (length (enc q')) \<le> t \<Longrightarrow> q' \<le> q"
          unfolding best_quality_def by auto
        have "q' \<le> q" if "lo \<le> q'" "q' \<le> hi" "int (length (enc q')) \<le> t" for q'
        proof (cases "?mid + 1 \<le> q'")
          case True
          then show ?thesis using b that by blast
        next
          case False
          then show ?thesis using a(1) by linarith
        qed
        then have "best_quality enc t lo hi q"
          unfolding best_quality_def using a m by auto
        with q(2) show ?thesis by blast
      next
        case False
        with c have "r = ?b" by simp
        moreover have "q' \<le> ?mid" if "lo \<le> q'" "q' \<le> hi" "int (length (enc q')) \<le> t" for q'
        proof (rule ccontr)
          assume "\<not> q' \<le> ?mid"
          then have "?mid + 1 \<le> q'" by linarith
          with False that show False by blast
        qed
        then have "best_quality enc t lo hi ?mid"
          unfolding best_quality_def using m le by auto
        ultimately show ?thesis by blast
      qed
      with eq ex show ?thesis by auto
    next
      case gt: False
      have p1: "\<forall>q. lo \<le> q \<and> q \<le> ?mid - 1 \<longrightarrow> save q = Inr (enc q)"
        using "1.prems"(1) m by auto
      have p2: "\<forall>q q'. lo \<le> q \<and> q \<le> q' \<and> q' \<le> ?mid - 1 \<longrightarrow> length (enc q) \<le> length (enc q')"
        using "1.prems"(2) m by auto
      from "1.IH"(2)[OF True refl d refl gt p1 p2]
      obtain r where r: "compress_search save t lo (?mid - 1) best = Inr r"
        and c: "if \<exists>q. lo \<le> q \<and> q \<le> ?mid - 1 \<and> int (length (enc q)) \<le> t
                then \<exists>q. best_quality enc t lo (?mid - 1) q \<and> r = Some (enc q, int (length (enc q)), q)
                else r = best" by blast
      have eq: "compress_search save t lo hi best = Inr r"
        using True d gt r by (subst compress_search.simps) (simp add: Let_def)
      have hi_fail: "\<not> int (length (enc q)) \<le> t" if "?mid \<le> q" "q \<le> hi" for q
      proof -
        have "length (enc ?mid) \<le> length (enc q)" using "1.prems"(2) m that by blast
        with gt show ?thesis by linarith
      qed
      have same: "(lo \<le> q \<and> q \<le> hi \<and> int (length (enc q)) \<le> t) \<longleftrightarrow>
                  (lo \<le> q \<and> q \<le> ?mid - 1 \<and> int (length (enc q)) \<le> t)" for q
        using hi_fail[of q] m by (cases "?mid \<le> q") auto
      have bq: "best_quality enc t lo hi q \<longleftrightarrow> best_quality enc t lo (?mid - 1) q" for q
        unfolding best_quality_def using same by (metis (no_types, lifting))
      show ?thesis using eq c unfolding same bq by auto
    qed
  qed
qed

lemma compress_image_target:
  assumes "pil_open L image_data = Some img0" and "flatten_rgb img0 = Inr img"
    and "target_size_kb \<noteq> 0"
  shows "compress_image L image_data (Some target_size_kb) quality =
           reraise ''Error compressing image: ''
             (case compress_search (pil_save_jpeg L img) (target_size_kb * 1024) 1 100 None of
                Inl e \<Rightarrow> Inl e
              | Inr (Some best_result) \<Rightarrow> Inr best_result
              | Inr None \<Rightarrow> save_at L img 1)"
  using assms by (simp add: compress_image_def image_open_def)

section \<open>Facts of the stand-in library\<close>

lemma stub_open:
  "image_data \<noteq> [] \<Longrightarrow>
   pil_open (stub_pil w h m jpeg_len) image_data =
     Some \<lparr>img_width = w, img_height = h, img_mode = m, img_format = ''PNG'',
           img_pix = Decoded image_data\<rparr>"
  by (simp add: stub_pil_def)

lemma stub_save_jpeg:
  "pil_save_jpeg (stub_pil w h m jpeg_len) img q = Inr (replicate (jpeg_len q) CHR ''J'')"
  by (simp add: stub_pil_def)

section \<open>Compression to a target size\<close>


lemma compress_image_default:
  assumes "pil_open L image_data = Some img0" and "flatten_rgb img0 = Inr img"
    and "pil_save_jpeg L img 85 = Inr j"
  shows "compress_image L image_data None None = Inr (j, int (length j), 85)"
  using assms by (simp add: compress_image_def image_open_def save_at_def reraise_def)






text \<open>
  Claim C2: when the size of the encoding does not decrease as the quality grows, the call
  with a (non-zero) target returns the encoding, its length and the quality for the largest
  quality from 1 to 100 whose encoding fits the target; when no quality fits, it returns
  those for quality 1.
\<close>

theorem compress_returns_best:
  assumes "pil_open L image_data = Some img0" and "flatten_rgb img0 = Inr img"
    and "\<forall>q. 1 \<le> q \<and> q \<le> 100 \<longrightarrow> pil_save_jpeg L img q = Inr (enc q)"
    and "\<forall>q q'. 1 \<le> q \<and> q \<le> q' \<and> q' \<le> 100 \<longrightarrow> length (enc q) \<le> length (enc q')"
    and "target_size_kb \<noteq> 0"
  shows "\<exists>q. compress_image L image_data (Some target_size_kb) quality =
               Inr (enc q, int (length (enc q)), q) \<and>
             (if \<exists>q'. 1 \<le> q' \<and> q' \<le> 100 \<and> int (length (enc q')) \<le> target_size_kb * 1024
              then best_quality enc (target_size_kb * 1024) 1 100 q
              else q = 1)"
proof -
  let ?t = "target_size_kb * 1024"
  let ?save = "pil_save_jpeg L img"
  from compress_search_max[OF assms(3,4), of ?t None]
  obtain r where r: "compress_search ?save ?t 1 100 None = Inr r"
    and c: "if \<exists>q. 1 \<le> q \<and> q \<le> 100 \<and> int (length (enc q)) \<le> ?t
            then \<exists>q. best_quality enc ?t 1 100 q \<and> r = Some (enc q, int (length (enc q)), q)
            else r = None"
    by blast
  have one: "save_at L img 1 = Inr (enc 1, int (length (enc 1)), 1)"
    using assms(3) by (simp add: save_at_def)
  note ci = compress_image_target[OF assms(1,2,5), of quality]
  show ?thesis
  proof (cases "\<exists>q. 1 \<le> q \<and> q \<le> 100 \<and> int (length (enc q)) \<le> ?t")
    case True
    with c obtain q where q: "best_quality enc ?t 1 100 q" "r = Some (enc q, int (length (enc q)), q)"
      by auto
    have "compress_image L image_data (Some target_size_kb) quality =
                 Inr (enc q, int (length (enc q)), q)"
      using ci r q(2) by (simp add: reraise_def)
    with q(1) True show ?thesis by auto
  next
    case False
    with c have "r = None" by simp
    then have "compress_image L image_data (Some target_size_kb) quality =
                 Inr (enc 1, int (length (enc 1)), 1)"
      using ci r one by (simp add: reraise_def)
    with False show ?thesis by auto
  qed
qed

text \<open>The same image and target as above: the search ends at the best quality.\<close>

theorem compress_returns_best_witness:
  "\<exists>q. compress_image (stub_pil 4 3 ''RGB'' growing) ''x'' (Some 1) None =
          Inr (replicate (growing q) CHR ''J'', int (growing q), q) \<and>
        best_quality (\<lambda>q. replicate (growing q) CHR ''J'') 1024 1 100 q"
proof -
  let ?img = "\<lparr>img_width = 4, img_height = 3, img_mode = ''RGB'', img_format = ''PNG'',
           img_pix = Decoded ''x''\<rparr>"
  have a: "pil_open (stub_pil 4 3 ''RGB'' growing) ''x'' = Some ?img"
    by (simp add: stub_open)
  have b: "flatten_rgb ?img = Inr ?img" by (simp add: flatten_rgb_def)
  have c: "\<forall>q. 1 \<le> q \<and> q \<le> 100 \<longrightarrow>
             pil_save_jpeg (stub_pil 4 3 ''RGB'' growing) ?img q = Inr (replicate (growing q) CHR ''J'')"
    by (simp add: stub_save_jpeg)
  have m: "\<forall>q q'. 1 \<le> q \<and> q \<le> q' \<and> q' \<le> 100 \<longrightarrow>
             length (replicate (growing q) CHR ''J'') \<le> length (replicate (growing q') CHR ''J'')"
    by (auto simp: growing_def)
  have d: "(1::int) \<noteq> 0" by simp
  have e: "\<exists>q'. 1 \<le> q' \<and> q' \<le> 100 \<and> int (length (replicate (growing q') CHR ''J'')) \<le> 1 * 1024"
    by (rule exI[of _ 1]) (simp add: growing_def)
  from compress_returns_best[OF a b c m d, of None] e
  show ?thesis by auto
qed

section \<open>Properties of the validators\<close>

text \<open>The message of the size check never holds the text the handler looks for.\<close>

lemma set_digits: "set (digits n) \<subseteq> set ''0123456789''"
proof (induction n rule: digits.induct)
  case (1 n)
  have nth: "''0123456789'' ! k \<in> set ''0123456789''" if "k < 10" for k
    using that by (intro nth_mem) simp
  show ?case
  proof (cases "n < 10")
    case True
    then show ?thesis using nth[of n] by (subst digits.simps) simp
  next
    case False
    have "n mod 10 < 10" by simp
    from nth[OF this] "1.IH"[OF False] False show ?thesis
      by (subst digits.simps) simp
  qed
qed

lemma y_not_in_str_int: "CHR ''y'' \<notin> set (str_int i)"
proof -
  have d: "CHR ''y'' \<notin> set (digits n)" for n
  proof
    assume "CHR ''y'' \<in> set (digits n)"
    with set_digits[of n] have "CHR ''y'' \<in> set ''0123456789''" by blast
    then show False by simp
  qed
  show ?thesis using d by (simp add: str_int_def)
qed

lemma size_message_not_identify:
  "\<not> sublist ''cannot identify image file''
       (''File size exceeds maximum allowed size of '' @ str_int k @ ''MB'')"
proof
  assume "sublist ''cannot identify image file''
       (''File size exceeds maximum allowed size of '' @ str_int k @ ''MB'')"
  then have "set ''cannot identify image file'' \<subseteq>
       set (''File size exceeds maximum allowed size of '' @ str_int k @ ''MB'')"
    by (rule set_mono_sublist)
  moreover have "CHR ''y'' \<in> set ''cannot identify image file''" by simp
  ultimately have "CHR ''y'' \<in> set (''File size exceeds maximum allowed size of '' @ str_int k @ ''MB'')"
    by blast
  then have "CHR ''y'' \<in> set (str_int k)" by simp
  with y_not_in_str_int show False by blast
qed

lemma stub_open_empty: "pil_open (stub_pil w h m jpeg_len) [] = None"
  by (simp add: stub_pil_def)

text \<open>
  Claim C9, as the code has it. The size check is \<^verbatim>\<open>len(file_data) > max_size\<close>, and an
  empty buffer has length 0: it fails the size check exactly when \<open>max_size\<close> is negative.
  For every \<open>max_size\<close> from 0 on, with the extension check passing or switched off, the
  library cannot identify the empty buffer and the handler turns that into
  "Invalid image file".
\<close>

theorem empty_buffer_outcome:
  assumes "pil_open L [] = None" and "extension_allowed filename allowed_extensions"
  shows "validate_image_file L [] filename max_size allowed_extensions =
           (if max_size < 0
            then Inl (Exception (''File size exceeds maximum allowed size of '' @
                                 str_int (max_size div (1024 * 1024)) @ ''MB''))
            else Inl (Exception ''Invalid image file''))"
proof (cases "max_size < 0")
  case True
  then have "validate_image_checks L [] filename max_size allowed_extensions =
     Inl (Exception (''File size exceeds maximum allowed size of '' @
                                 str_int (max_size div (1024 * 1024)) @ ''MB''))"
    by (simp add: validate_image_checks_def)
  with True show ?thesis
    using size_message_not_identify[of "max_size div (1024 * 1024)"]
    by (simp add: validate_image_file_def)
next
  case False
  then have "validate_image_checks L [] filename max_size allowed_extensions =
     Inl (UnidentifiedImageError (pil_repr L []))"
    using assms by (simp add: validate_image_checks_def image_open_def)
  moreover have "sublist ''cannot identify image file''
                   (message (UnidentifiedImageError (pil_repr L [])))"
    by (auto simp: sublist_def intro: exI[of _ "[]"])
  ultimately show ?thesis using False
    by (simp add: validate_image_file_def)
qed

text \<open>The theorem at the default limit of 10 MiB and at a negative limit.\<close>

theorem empty_buffer_outcome_witness:
  "validate_image_file (stub_pil 4 3 ''RGB'' growing) [] ''photo.png'' 10485760 (Some [''png'']) =
     Inl (Exception ''Invalid image file'') \<and>
   validate_image_file (stub_pil 4 3 ''RGB'' growing) [] ''photo.png'' (- 1) (Some [''png'']) =
     Inl (Exception ''File size exceeds maximum allowed size of -1MB'')"
proof -
  have e: "extension_allowed ''photo.png'' (Some [''png''])" by code_simp
  have s: "str_int (- 1 div (1024 * 1024)) = ''-1''" by code_simp
  have a: "validate_image_file (stub_pil 4 3 ''RGB'' growing) [] ''photo.png'' 10485760 (Some [''png'']) =
     Inl (Exception ''Invalid image file'')"
    by (subst empty_buffer_outcome[OF stub_open_empty e]) simp
  have b: "validate_image_file (stub_pil 4 3 ''RGB'' growing) [] ''photo.png'' (- 1) (Some [''png'']) =
     Inl (Exception (''File size exceeds maximum allowed size of '' @
                                 str_int (- 1 div (1024 * 1024)) @ ''MB''))"
    by (subst empty_buffer_outcome[OF stub_open_empty e]) simp
  from a b show ?thesis unfolding s by simp
qed

text \<open>
  Claim C9 as the specification states it fails at \<open>max_size = 0\<close>: the empty buffer passes the
  size check there (0 is not larger than 0) and is rejected at decoding, not for its size.
\<close>

theorem empty_buffer_counterexample:
  "validate_image_file (stub_pil 4 3 ''RGB'' growing) [] ''photo.png'' 0 (Some [''png'']) =
     Inl (Exception ''Invalid image file'')"
  by code_simp

text \<open>What \<^verbatim>\<open>validate_image_file\<close> accepts: no signature is looked at.\<close>

lemma validate_image_file_accepts:
  "validate_image_file L file_data filename max_size allowed_extensions = Inr v \<longleftrightarrow>
     v \<and> int (length file_data) \<le> max_size \<and>
     extension_allowed filename allowed_extensions \<and>
     (\<exists>img. pil_open L file_data = Some img \<and> pil_verify L file_data = None \<and>
            1 \<le> img_width img \<and> img_width img \<le> 4000 \<and>
            1 \<le> img_height img \<and> img_height img \<le> 4000)"
  by (auto simp: validate_image_file_def validate_image_checks_def image_open_def
           split: sum.splits option.splits if_splits)

text \<open>
  Claim C4, as the code has it. The signature check is in \<^verbatim>\<open>validate_file_upload\<close>: there a
  buffer within the size limit and with an allowed extension that starts with none of the
  five signatures is rejected with "Invalid file format", and a buffer is accepted only if
  both the extension check and the signature check pass. \<^verbatim>\<open>validate_image_file\<close>, the
  validator the upload route calls, checks size, extension, decodability and dimensions
  and no signature.
\<close>

theorem upload_signature_check:
  "(is_valid_image file_data \<longleftrightarrow>
      prefix [CHR 0xFF, CHR 0xD8, CHR 0xFF] file_data \<or>
      prefix [CHR 0x89, CHR ''P'', CHR ''N'', CHR ''G'', CHR 0x0D, CHR 0x0A, CHR 0x1A, CHR 0x0A]
        file_data \<or>
      prefix ''GIF87a'' file_data \<or> prefix ''GIF89a'' file_data \<or> prefix ''RIFF'' file_data) \<and>
   (int (length file_data) \<le> max_size \<and> upload_extension_allowed filename allowed_extensions \<and>
    \<not> is_valid_image file_data \<longrightarrow>
      validate_file_upload file_data filename max_size allowed_extensions =
        Inl (Exception ''Invalid file format'')) \<and>
   (validate_file_upload file_data filename max_size allowed_extensions = Inr v \<longrightarrow>
      upload_extension_allowed filename allowed_extensions \<and> is_valid_image file_data) \<and>
   (validate_image_file L file_data filename max_size allowed_extensions = Inr v \<longleftrightarrow>
      v \<and> int (length file_data) \<le> max_size \<and>
      extension_allowed filename allowed_extensions \<and>
      (\<exists>img. pil_open L file_data = Some img \<and> pil_verify L file_data = None \<and>
             1 \<le> img_width img \<and> img_width img \<le> 4000 \<and>
             1 \<le> img_height img \<and> img_height img \<le> 4000))"
proof (intro conjI)
  show "is_valid_image file_data \<longleftrightarrow>
      prefix [CHR 0xFF, CHR 0xD8, CHR 0xFF] file_data \<or>
      prefix [CHR 0x89, CHR ''P'', CHR ''N'', CHR ''G'', CHR 0x0D, CHR 0x0A, CHR 0x1A, CHR 0x0A]
        file_data \<or>
      prefix ''GIF87a'' file_data \<or> prefix ''GIF89a'' file_data \<or> prefix ''RIFF'' file_data"
    by (simp add: is_valid_image_def magic_bytes_def)
  show "int (length file_data) \<le> max_size \<and> upload_extension_allowed filename allowed_extensions \<and>
    \<not> is_valid_image file_data \<longrightarrow>
      validate_file_upload file_data filename max_size allowed_extensions =
        Inl (Exception ''Invalid file format'')"
    by (simp add: validate_file_upload_def)
  show "validate_file_upload file_data filename max_size allowed_extensions = Inr v \<longrightarrow>
      upload_extension_allowed filename allowed_extensions \<and> is_valid_image file_data"
    by (simp add: validate_file_upload_def split: if_splits)
  show "validate_image_file L file_data filename max_size allowed_extensions = Inr v \<longleftrightarrow>
      v \<and> int (length file_data) \<le> max_size \<and>
      extension_allowed filename allowed_extensions \<and>
      (\<exists>img. pil_open L file_data = Some img \<and> pil_verify L file_data = None \<and>
             1 \<le> img_width img \<and> img_width img \<le> 4000 \<and>
             1 \<le> img_height img \<and> img_height img \<le> 4000)"
    by (rule validate_image_file_accepts)
qed

text \<open>The one-pixel bitmap: the bitmap decoder opens it, and it starts with no known signature.\<close>

lemma bmp_1x1_fields:
  "take 2 bmp_1x1 = ''BM''" "field bmp_1x1 2 4 = 58" "field bmp_1x1 10 4 = 54"
  "field bmp_1x1 14 4 = 40" "field bmp_1x1 18 4 = 1" "field bmp_1x1 22 4 = 1"
  "field bmp_1x1 26 2 = 1" "field bmp_1x1 28 2 = 24" "field bmp_1x1 30 4 = 0"
  "length bmp_1x1 = 58"
  by (simp_all add: field_def le_bytes_def bmp_1x1_def)

lemma bmp_1x1_opens:
  "bmp_open bmp_1x1 =
     Some \<lparr>img_width = 1, img_height = 1, img_mode = ''RGB'', img_format = ''BMP'',
           img_pix = Decoded bmp_1x1\<rparr>"
  unfolding bmp_open_def bmp_1x1_fields Let_def by simp

lemma bmp_1x1_no_signature: "\<not> is_valid_image bmp_1x1"
  by (simp add: is_valid_image_def magic_bytes_def bmp_1x1_def)

lemma png_extension:
  "extension_allowed ''photo.png'' (Some [''jpg'', ''jpeg'', ''png'', ''webp''])"
  "upload_extension_allowed ''photo.png'' (Some [''jpg'', ''jpeg'', ''png'', ''webp''])"
  by (simp_all add: extension_allowed_def upload_extension_allowed_def splitext_def rfind_def
                    lstrip_dots_def last_dot_part_def lower_def lower_char_def)

text \<open>
  A complete bitmap file under the name of a PNG file: the extension passes, the signature
  does not, and \<^verbatim>\<open>validate_file_upload\<close> rejects it.
\<close>

theorem upload_signature_check_witness:
  "validate_file_upload bmp_1x1 ''photo.png'' 10485760 (Some [''jpg'', ''jpeg'', ''png'', ''webp'']) =
     Inl (Exception ''Invalid file format'')"
proof -
  have a: "int (length bmp_1x1) \<le> 10485760" by (simp add: bmp_1x1_fields)
  from upload_signature_check[of bmp_1x1 10485760 "''photo.png''"
        "Some [''jpg'', ''jpeg'', ''png'', ''webp'']"] a png_extension(2) bmp_1x1_no_signature
  show ?thesis by blast
qed

text \<open>
  Claim C4 as the specification states it fails for \<^verbatim>\<open>validate_image_file\<close>: the same
  file, 58 bytes that start with \<^verbatim>\<open>BM\<close> and with none of the JPEG, PNG, GIF or RIFF
  signatures, is within the size limit, has an allowed extension, decodes as a bitmap of
  1 by 1 pixel and is accepted.
\<close>

theorem upload_signature_counterexample:
  "validate_image_file bmp_pil bmp_1x1 ''photo.png'' 10485760
     (Some [''jpg'', ''jpeg'', ''png'', ''webp'']) = Inr True \<and>
   \<not> is_valid_image bmp_1x1"
proof -
  have "pil_open bmp_pil bmp_1x1 =
     Some \<lparr>img_width = 1, img_height = 1, img_mode = ''RGB'', img_format = ''BMP'',
           img_pix = Decoded bmp_1x1\<rparr>"
    by (simp add: bmp_pil_def bmp_1x1_opens)
  moreover have "pil_verify bmp_pil bmp_1x1 = None"
    by (simp add: bmp_pil_def stub_pil_def)
  moreover have "int (length bmp_1x1) \<le> 10485760" by (simp add: bmp_1x1_fields)
  ultimately have "validate_image_file bmp_pil bmp_1x1 ''photo.png'' 10485760
     (Some [''jpg'', ''jpeg'', ''png'', ''webp'']) = Inr True"
    using png_extension(1) by (subst validate_image_file_accepts) simp
  with bmp_1x1_no_signature show ?thesis by blast
qed

section \<open>Properties of a pack run\<close>

text \<open>What the body of the loop does with one entry, and how the reading of the clock enters.\<close>

lemma pack_output_shape:
  "pack_output L d out stamp =
     (if \<not> recognized out then Inr None
      else case pack_output L d out [] of
             Inl e \<Rightarrow> Inl e
           | Inr None \<Rightarrow> Inr None
           | Inr (Some r) \<Rightarrow> Inr (Some (r\<lparr>r_filename := spec_name out @ ''_'' @ stamp @ ''.png''\<rparr>)))"
  by (auto simp: pack_output_def recognized_def spec_name_def Let_def
           split: option.splits sum.splits)

lemma pack_output_recognized:
  "recognized out \<Longrightarrow> pack_output L d out stamp = Inr (Some r) \<Longrightarrow>
     r_name r = spec_name out \<and> r_width r = o_width out \<and> r_height r = o_height out \<and>
     r_filename r = spec_name out @ ''_'' @ stamp @ ''.png''"
  by (auto simp: pack_output_def recognized_def spec_name_def Let_def
           split: option.splits sum.splits if_splits)

lemma pack_output_unrecognized:
  "\<not> recognized out \<Longrightarrow> pack_output L d out stamp = Inr None"
  by (auto simp: pack_output_def recognized_def Let_def split: option.splits)

lemma pack_output_recognized_not_None:
  "recognized out \<Longrightarrow> pack_output L d out stamp \<noteq> Inr None"
  by (auto simp: pack_output_def recognized_def spec_name_def Let_def
           split: option.splits sum.splits if_splits)

text \<open>Entries of an unknown method change nothing.\<close>

lemma pack_loop_filter:
  "pack_loop L clock d outs n results = pack_loop L clock d (filter recognized outs) n results"
proof (induction outs arbitrary: n results)
  case Nil
  show ?case by simp
next
  case (Cons out outs)
  show ?case
  proof (cases "recognized out")
    case True
    then show ?thesis using Cons.IH
      by (simp split: sum.splits option.splits)
  next
    case False
    then show ?thesis using Cons.IH pack_output_unrecognized[OF False]
      by simp
  qed
qed

text \<open>A run that returns has appended one result for each recognized entry, in order.\<close>

lemma pack_loop_results:
  "pack_loop L clock d outs n results = Inr rs \<Longrightarrow>
     \<exists>new. rs = results @ new \<and>
       map (\<lambda>r. (r_name r, r_width r, r_height r)) new =
         map (\<lambda>out. (spec_name out, o_width out, o_height out)) (filter recognized outs) \<and>
       (\<forall>i < length new. r_filename (new ! i) =
           r_name (new ! i) @ ''_'' @ strftime (clock (n + i)) @ ''.png'')"
proof (induction outs arbitrary: n results)
  case Nil
  then show ?case by simp
next
  case (Cons out outs)
  show ?case
  proof (cases "recognized out")
    case False
    from Cons.prems pack_output_unrecognized[OF False]
    have "pack_loop L clock d outs n results = Inr rs" by simp
    from Cons.IH[OF this] False show ?thesis by simp
  next
    case True
    from Cons.prems pack_output_recognized_not_None[OF True]
    obtain r where r: "pack_output L d out (strftime (clock n)) = Inr (Some r)"
      and loop: "pack_loop L clock d outs (Suc n) (results @ [r]) = Inr rs"
      by (auto split: sum.splits option.splits)
    from pack_output_recognized[OF True r]
    have rr: "r_name r = spec_name out" "r_width r = o_width out" "r_height r = o_height out"
      "r_filename r = r_name r @ ''_'' @ strftime (clock n) @ ''.png''" by auto
    from Cons.IH[OF loop] obtain new where new: "rs = (results @ [r]) @ new"
      "map (\<lambda>r. (r_name r, r_width r, r_height r)) new =
         map (\<lambda>out. (spec_name out, o_width out, o_height out)) (filter recognized outs)"
      "\<forall>i < length new. r_filename (new ! i) =
           r_name (new ! i) @ ''_'' @ strftime (clock (Suc n + i)) @ ''.png''" by blast
    have "\<forall>i < length (r # new). r_filename ((r # new) ! i) =
           r_name ((r # new) ! i) @ ''_'' @ strftime (clock (n + i)) @ ''.png''"
    proof (intro allI impI)
      fix i assume "i < length (r # new)"
      then show "r_filename ((r # new) ! i) =
           r_name ((r # new) ! i) @ ''_'' @ strftime (clock (n + i)) @ ''.png''"
        using rr(4) new(3) by (cases i) auto
    qed
    with new(1,2) rr True show ?thesis
      by (intro exI[of _ "r # new"]) simp
  qed
qed

text \<open>The run returns when every recognized entry can be processed.\<close>

lemma pack_loop_returns:
  "\<forall>out \<in> set outs. recognized out \<longrightarrow> (\<exists>r. pack_output L d out [] = Inr (Some r))
   \<Longrightarrow> \<exists>rs. pack_loop L clock d outs n results = Inr rs"
proof (induction outs arbitrary: n results)
  case Nil
  show ?case by simp
next
  case (Cons out outs)
  show ?case
  proof (cases "recognized out")
    case False
    with Cons show ?thesis using pack_output_unrecognized[OF False] by simp
  next
    case True
    with Cons.prems obtain r where "pack_output L d out [] = Inr (Some r)" by auto
    then have "\<exists>r'. pack_output L d out (strftime (clock n)) = Inr (Some r')"
      using True by (subst pack_output_shape) simp
    then obtain r' where "pack_output L d out (strftime (clock n)) = Inr (Some r')" ..
    with Cons show ?thesis by simp
  qed
qed

text \<open>Two runs that differ in the clock alone differ in the file names alone.\<close>

lemma pack_loop_clock:
  "map without_filename results = map without_filename results' \<Longrightarrow>
   map_sum id (map without_filename) (pack_loop L clock d outs n results) =
   map_sum id (map without_filename) (pack_loop L clock' d outs n' results')"
proof (induction outs arbitrary: n n' results results')
  case Nil
  then show ?case by simp
next
  case (Cons out outs)
  show ?case
  proof (cases "recognized out")
    case False
    with Cons show ?thesis using pack_output_unrecognized[OF False] by simp
  next
    case True
    show ?thesis
    proof (cases "pack_output L d out []")
      case (Inl e)
      then show ?thesis using True
        by (simp add: pack_output_shape[of L d out "strftime _"])
    next
      case (Inr ro)
      with pack_output_recognized_not_None[OF True, of L d "[]"]
      obtain r where r: "pack_output L d out [] = Inr (Some r)" by (cases ro) auto
      let ?r1 = "r\<lparr>r_filename := spec_name out @ ''_'' @ strftime (clock n) @ ''.png''\<rparr>"
      let ?r2 = "r\<lparr>r_filename := spec_name out @ ''_'' @ strftime (clock' n') @ ''.png''\<rparr>"
      have 1: "pack_output L d out (strftime (clock n)) = Inr (Some ?r1)"
        using True r by (subst pack_output_shape) simp
      have 2: "pack_output L d out (strftime (clock' n')) = Inr (Some ?r2)"
        using True r by (subst pack_output_shape) simp
      have "without_filename ?r1 = without_filename ?r2"
        by (simp add: without_filename_def)
      then have "map without_filename (results @ [?r1]) = map without_filename (results' @ [?r2])"
        using Cons.prems by simp
      from Cons.IH[OF this] 1 2 show ?thesis by simp
    qed
  qed
qed

lemma pack_output_any_stamp:
  "pack_output L d out stamp = Inr (Some r) \<Longrightarrow> \<exists>r'. pack_output L d out [] = Inr (Some r')"
  by (subst (asm) pack_output_shape) (auto split: if_splits sum.splits option.splits)

lemma pack_loop_same_stamps:
  "\<forall>k. strftime (clock k) = strftime (clock' k) \<Longrightarrow>
   pack_loop L clock d outs n results = pack_loop L clock' d outs n results"
  by (induction outs arbitrary: n results) (auto split: sum.splits option.splits)

text \<open>The sample pack on the stand-in library, for any clock.\<close>

lemma stub_resize_exact:
  "d \<noteq> [] \<Longrightarrow> 1 \<le> w \<Longrightarrow> 1 \<le> h \<Longrightarrow>
   resize_image (stub_pil sw sh m j) d (Some w) (Some h) None None None =
     Inr (''PNG'' @ replicate (nat w) CHR ''.'', w, h)"
  by (simp add: resize_image_def image_open_def stub_pil_def resize_dims_def image_resize_def
                reraise_def)

lemma sample_pack_run:
  "process_pack (stub_pil 4 3 ''RGB'' growing) clock ''x'' sample_pack =
     Inr [\<lparr>r_data = ''PNG'' @ replicate 8 CHR ''.'',
           r_filename = ''square_'' @ strftime (clock 0) @ ''.png'',
           r_width = Some 8, r_height = Some 8, r_size = 11, r_name = ''square''\<rparr>,
          \<lparr>r_data = ''PNG'' @ replicate 5 CHR ''.'',
           r_filename = ''output_'' @ strftime (clock 1) @ ''.png'',
           r_width = Some 5, r_height = Some 4, r_size = 8, r_name = ''output''\<rparr>]"
  by (simp add: process_pack_def config_outputs_def sample_pack_def pack_output_def
                stub_resize_exact reraise_def Let_def)


lemma strftime_morning: "strftime (morning 0) = ''20240309_070500''"
  and strftime_morning1: "strftime (morning 1) = ''20240309_070501''"
  and strftime_evening: "strftime (evening 0) = ''20240309_190500''"
  by (simp_all add: strftime_def zero_pad_def morning_def evening_def digits.simps)

text \<open>
  Claim C5. Entries of an unrecognized method are skipped: the pack gives what the pack
  without them gives, errors included. When the call returns, it returns one result for
  each recognized entry, in the order of the entries, under the name, width and height of
  the entry. And it returns whenever each recognized entry can be processed by itself; the
  failure of one entry (a transformation that raises) is the failure of the call.
\<close>

theorem pack_results_in_order:
  "process_pack L clock d config =
     process_pack L clock d (config\<lparr>outputs := Some (filter recognized (config_outputs config))\<rparr>) \<and>
   (\<forall>rs. process_pack L clock d config = Inr rs \<longrightarrow>
      map (\<lambda>r. (r_name r, r_width r, r_height r)) rs =
        map (\<lambda>out. (spec_name out, o_width out, o_height out))
            (filter recognized (config_outputs config))) \<and>
   ((\<forall>out \<in> set (config_outputs config).
        recognized out \<longrightarrow> (\<exists>stamp r. pack_output L d out stamp = Inr (Some r))) \<longrightarrow>
    (\<exists>rs. process_pack L clock d config = Inr rs))"
proof (intro conjI allI impI)
  show "process_pack L clock d config =
     process_pack L clock d (config\<lparr>outputs := Some (filter recognized (config_outputs config))\<rparr>)"
    using pack_loop_filter[of L clock d "config_outputs config" 0 "[]"]
    by (simp add: process_pack_def config_outputs_def)
next
  fix rs assume "process_pack L clock d config = Inr rs"
  then have "pack_loop L clock d (config_outputs config) 0 [] = Inr rs"
    by (auto simp: process_pack_def reraise_def split: sum.splits)
  from pack_loop_results[OF this]
  show "map (\<lambda>r. (r_name r, r_width r, r_height r)) rs =
        map (\<lambda>out. (spec_name out, o_width out, o_height out))
            (filter recognized (config_outputs config))" by auto
next
  assume a: "\<forall>out \<in> set (config_outputs config).
        recognized out \<longrightarrow> (\<exists>stamp r. pack_output L d out stamp = Inr (Some r))"
  have "\<forall>out \<in> set (config_outputs config).
        recognized out \<longrightarrow> (\<exists>r. pack_output L d out [] = Inr (Some r))"
    using a pack_output_any_stamp by blast
  from pack_loop_returns[OF this, of clock 0 "[]"]
  show "\<exists>rs. process_pack L clock d config = Inr rs"
    by (auto simp: process_pack_def reraise_def)
qed

text \<open>The sample pack: three entries, two results, in order.\<close>

theorem pack_results_in_order_witness:
  "\<exists>rs. process_pack (stub_pil 4 3 ''RGB'' growing) morning ''x'' sample_pack = Inr rs \<and>
     map (\<lambda>r. (r_name r, r_width r, r_height r)) rs =
       [(''square'', Some 8, Some 8), (''output'', Some 5, Some 4)]"
proof -
  let ?L = "stub_pil 4 3 ''RGB'' growing"
  have 1: "\<forall>out \<in> set (config_outputs sample_pack).
        recognized out \<longrightarrow> (\<exists>stamp r. pack_output ?L ''x'' out stamp = Inr (Some r))"
    by (simp add: config_outputs_def sample_pack_def recognized_def pack_output_def
                  stub_resize_exact Let_def)
  have 2: "map (\<lambda>out. (spec_name out, o_width out, o_height out))
            (filter recognized (config_outputs sample_pack)) =
           [(''square'', Some 8, Some 8), (''output'', Some 5, Some 4)]"
    by (simp add: config_outputs_def sample_pack_def recognized_def spec_name_def)
  from pack_results_in_order[of ?L morning "''x''" sample_pack]
  have a: "\<forall>rs. process_pack ?L morning ''x'' sample_pack = Inr rs \<longrightarrow>
      map (\<lambda>r. (r_name r, r_width r, r_height r)) rs =
        map (\<lambda>out. (spec_name out, o_width out, o_height out))
            (filter recognized (config_outputs sample_pack))"
    and b: "(\<forall>out \<in> set (config_outputs sample_pack).
        recognized out \<longrightarrow> (\<exists>stamp r. pack_output ?L ''x'' out stamp = Inr (Some r))) \<longrightarrow>
    (\<exists>rs. process_pack ?L morning ''x'' sample_pack = Inr rs)"
    by blast+
  from b 1 obtain rs where rs: "process_pack ?L morning ''x'' sample_pack = Inr rs" by blast
  with a 2 show ?thesis by auto
qed

subsection \<open>Two invocations of one operation\<close>

text \<open>
  What two invocations under the same codecs agree on: whether the call returns, and what it
  returns. An exception that passes through an operation keeps no more than that it was
  raised, since its text may quote the stream.
\<close>

lemma forget_error_reraise: "forget_error (reraise p r) = forget_error r"
  by (cases r) (auto simp: forget_error_def reraise_def)

lemma forget_error_bind:
  assumes "forget_error r = forget_error r'"
    and "\<And>v. forget_error (f v) = forget_error (f' v)"
  shows "forget_error (case r of Inl e \<Rightarrow> Inl e | Inr v \<Rightarrow> f v) =
         forget_error (case r' of Inl e \<Rightarrow> Inl e | Inr v \<Rightarrow> f' v)"
  using assms by (cases r; cases r') (auto simp: forget_error_def)

lemma forget_error_map:
  assumes "forget_error r = forget_error r'"
  shows "forget_error (case r of Inl e \<Rightarrow> Inl e | Inr v \<Rightarrow> Inr (g v)) =
         forget_error (case r' of Inl e \<Rightarrow> Inl e | Inr v \<Rightarrow> Inr (g v))"
  using assms by (cases r; cases r') (auto simp: forget_error_def)

lemma image_open_codecs:
  "same_codecs L L' \<Longrightarrow> forget_error (image_open L d) = forget_error (image_open L' d)"
  by (auto simp: same_codecs_def image_open_def forget_error_def split: option.splits)

lemma get_image_info_codecs:
  assumes "same_codecs L L'"
  shows "forget_error (get_image_info L d) = forget_error (get_image_info L' d)"
  unfolding get_image_info_def forget_error_reraise
  by (rule forget_error_map[OF image_open_codecs[OF assms]])

lemma compress_image_codecs:
  assumes "same_codecs L L'"
  shows "forget_error (compress_image L d t q) = forget_error (compress_image L' d t q)"
proof -
  have j: "pil_save_jpeg L' = pil_save_jpeg L" using assms by (simp add: same_codecs_def)
  then have s: "save_at L' = save_at L" by (simp add: save_at_def fun_eq_iff)
  show ?thesis
    unfolding compress_image_def forget_error_reraise j s
    by (rule forget_error_bind[OF image_open_codecs[OF assms]]) (rule refl)
qed

lemma resize_image_codecs:
  assumes "same_codecs L L'"
  shows "forget_error (resize_image L d w h p mw mh) = forget_error (resize_image L' d w h p mw mh)"
proof -
  have j: "pil_save_png L' = pil_save_png L" using assms by (simp add: same_codecs_def)
  show ?thesis
    unfolding resize_image_def forget_error_reraise j
    by (rule forget_error_bind[OF image_open_codecs[OF assms]]) (rule refl)
qed

lemma add_blur_borders_codecs:
  assumes "same_codecs L L'"
  shows "forget_error (add_blur_borders L d w h b) = forget_error (add_blur_borders L' d w h b)"
proof -
  have j: "pil_save_png L' = pil_save_png L" using assms by (simp add: same_codecs_def)
  show ?thesis
    unfolding add_blur_borders_def forget_error_reraise j
    by (rule forget_error_bind[OF image_open_codecs[OF assms]]) (rule refl)
qed

lemma validate_image_file_codecs:
  assumes "same_codecs L L'"
  shows "validate_image_file L d f m a = validate_image_file L' d f m a"
proof -
  have o: "pil_open L' = pil_open L" and v: "pil_verify L' = pil_verify L"
    using assms by (simp_all add: same_codecs_def)
  have i: "sublist ''cannot identify image file'' (''cannot identify image file '' @ r)" for r
    by (rule prefix_imp_sublist) simp
  show ?thesis
  proof (cases "pil_open L d")
    case None
    then have "image_open L d = Inl (UnidentifiedImageError (pil_repr L d))"
      "image_open L' d = Inl (UnidentifiedImageError (pil_repr L' d))"
      by (simp_all add: image_open_def o)
    then show ?thesis
      by (simp add: validate_image_file_def validate_image_checks_def i)
  next
    case (Some img)
    then have "image_open L d = Inr img" "image_open L' d = Inr img"
      by (simp_all add: image_open_def o)
    then have "validate_image_checks L' d f m a = validate_image_checks L d f m a"
      by (simp add: validate_image_checks_def v split: option.splits)
    then show ?thesis by (simp add: validate_image_file_def)
  qed
qed

lemma pack_blur_codecs:
  assumes "same_codecs L L'"
  shows "forget_error (pack_blur L d w h) = forget_error (pack_blur L' d w h)"
proof (cases w)
  case None
  show ?thesis
    unfolding pack_blur_def None prod.case option.case forget_error_reraise
    by (rule forget_error_bind[OF image_open_codecs[OF assms]]) (rule refl)
next
  case (Some a)
  show ?thesis
  proof (cases h)
    case None
    show ?thesis
      unfolding pack_blur_def Some None prod.case option.case forget_error_reraise
      by (rule forget_error_bind[OF image_open_codecs[OF assms]]) (rule refl)
  next
    case (Some b)
    show ?thesis
      unfolding pack_blur_def \<open>w = Some a\<close> Some prod.case option.case
      by (rule add_blur_borders_codecs[OF assms])
  qed
qed

lemma pack_compress_codecs:
  assumes "same_codecs L L'"
  shows "forget_error (pack_compress L d t) = forget_error (pack_compress L' d t)"
  unfolding pack_compress_def
  by (rule forget_error_bind)
     (auto simp: compress_image_codecs[OF assms])

lemma pack_output_codecs:
  assumes "same_codecs L L'"
  shows "forget_error (pack_output L d out stamp) = forget_error (pack_output L' d out stamp)"
proof -
  have 1: "forget_error (if b then pack_blur L d w h
                 else (case resize_image L d w h None None None of
                         Inl e \<Rightarrow> Inl e
                       | Inr (png, new_width, new_height) \<Rightarrow> Inr png)) =
           forget_error (if b then pack_blur L' d w h
                 else (case resize_image L' d w h None None None of
                         Inl e \<Rightarrow> Inl e
                       | Inr (png, new_width, new_height) \<Rightarrow> Inr png))" for b w h
  proof (cases b)
    case True
    then show ?thesis by (simp only: if_True pack_blur_codecs[OF assms])
  next
    case False
    then have b: "b = False" by simp
    show ?thesis
      unfolding b if_False
      by (rule forget_error_bind[OF resize_image_codecs[OF assms]]) (rule refl)
  qed
  have 2: "forget_error (if c then pack_compress L p t else Inr p) =
           forget_error (if c then pack_compress L' p t else Inr p)" for c p t
    by (cases c) (simp_all only: if_True if_False pack_compress_codecs[OF assms])
  let ?skip = "(case o_method out of None \<Rightarrow> ''blur'' | Some m \<Rightarrow> m) \<noteq> ''blur'' \<and>
               (case o_method out of None \<Rightarrow> ''blur'' | Some m \<Rightarrow> m) \<noteq> ''resize''"
  show ?thesis
  proof (cases ?skip)
    case True
    then have c: "?skip = True" by simp
    show ?thesis unfolding pack_output_def Let_def c if_True by (rule refl)
  next
    case False
    then have c: "?skip = False" by simp
    show ?thesis
      unfolding pack_output_def Let_def c if_False
      by (rule forget_error_bind[OF 1 forget_error_map[OF 2]])
  qed
qed

lemma pack_loop_codecs:
  assumes "same_codecs L L'"
  shows "forget_error (pack_loop L clock d outs n results) =
         forget_error (pack_loop L' clock d outs n results)"
proof (induction outs arbitrary: n results)
  case Nil
  show ?case by simp
next
  case (Cons out outs)
  from pack_output_codecs[OF assms, of d out "strftime (clock n)"]
  show ?case
    by (cases "pack_output L d out (strftime (clock n))";
        cases "pack_output L' d out (strftime (clock n))")
       (auto simp: forget_error_def Cons.IH[unfolded forget_error_def] split: option.splits)
qed

lemma forget_error_map_sum:
  "map_sum id g r = map_sum id g r' \<Longrightarrow>
   map_sum (\<lambda>e. ()) g r = map_sum (\<lambda>e. ()) g r'"
  by (cases r; cases r') auto

lemma process_pack_codecs:
  assumes "same_codecs L L'"
  shows "map_sum (\<lambda>e. ()) (map without_filename) (process_pack L clock d config) =
         map_sum (\<lambda>e. ()) (map without_filename) (process_pack L' clock' d config)"
proof -
  let ?os = "config_outputs config"
  have 1: "forget_error (pack_loop L clock d ?os 0 []) = forget_error (pack_loop L' clock d ?os 0 [])"
    by (rule pack_loop_codecs[OF assms])
  have 2: "map_sum id (map without_filename) (pack_loop L' clock d ?os 0 []) =
           map_sum id (map without_filename) (pack_loop L' clock' d ?os 0 [])"
    by (rule pack_loop_clock) simp
  show ?thesis
    using 1 2 unfolding process_pack_def
    by (cases "pack_loop L clock d ?os 0 []"; cases "pack_loop L' clock d ?os 0 []";
        cases "pack_loop L' clock' d ?os 0 []")
       (auto simp: forget_error_def reraise_def)
qed


lemma image_open_decoded:
  "same_codecs L L' \<Longrightarrow> pil_open L d \<noteq> None \<Longrightarrow> image_open L' d = image_open L d"
  by (auto simp: same_codecs_def image_open_def)

lemma same_codecs_same_repr:
  "same_codecs L L' \<Longrightarrow> pil_repr L = pil_repr L' \<Longrightarrow> L = (L' :: pil)"
  by (cases L; cases L') (simp add: same_codecs_def)

lemma stub_pil_elsewhere_codecs: "same_codecs (stub_pil 4 3 ''RGB'' growing) stub_pil_elsewhere"
  by (simp add: same_codecs_def stub_pil_elsewhere_def)

text \<open>
  Claim C6, as the code has it. Two invocations on the same buffer and parameters, under the
  same codecs, at any two addresses of the streams and any two clocks:
  \<^item> \<^verbatim>\<open>validate_image_file\<close> gives the same result, errors included (it replaces the message
    that quotes the stream by its own);
  \<^item> \<^verbatim>\<open>get_image_info\<close>, \<^verbatim>\<open>add_blur_borders\<close>, \<^verbatim>\<open>resize_image\<close> and \<^verbatim>\<open>compress_image\<close> both
    return, and then the same value, or both raise; when the buffer decodes, the errors are
    the same too;
  \<^item> \<^verbatim>\<open>process_pack\<close> both times returns, and then the same results up to their file names,
    or both times raises. The file name of the \<open>i\<close>-th result is its name, \<^verbatim>\<open>_\<close>, the \<open>i\<close>-th
    reading of the clock and \<^verbatim>\<open>.png\<close>; when the readings, as formatted, are the same, so are
    the file names; when the streams lie at the same address, so are the errors.

  \<^verbatim>\<open>validate_file_upload\<close> takes neither library nor clock.
\<close>

theorem invocations_agree:
  assumes "same_codecs L L'"
  shows "validate_image_file L d f m a = validate_image_file L' d f m a \<and>
    forget_error (get_image_info L d) = forget_error (get_image_info L' d) \<and>
    forget_error (add_blur_borders L d w h b) = forget_error (add_blur_borders L' d w h b) \<and>
    forget_error (resize_image L d rw rh p mw mh) =
      forget_error (resize_image L' d rw rh p mw mh) \<and>
    forget_error (compress_image L d t q) = forget_error (compress_image L' d t q) \<and>
    map_sum (\<lambda>e. ()) (map without_filename) (process_pack L clock d config) =
      map_sum (\<lambda>e. ()) (map without_filename) (process_pack L' clock' d config) \<and>
    (\<forall>rs i. process_pack L clock d config = Inr rs \<and> i < length rs \<longrightarrow>
       r_filename (rs ! i) = r_name (rs ! i) @ ''_'' @ strftime (clock i) @ ''.png'') \<and>
    ((\<forall>k. strftime (clock k) = strftime (clock' k)) \<longrightarrow>
       forget_error (process_pack L clock d config) =
       forget_error (process_pack L' clock' d config)) \<and>
    (pil_open L d \<noteq> None \<longrightarrow>
       get_image_info L d = get_image_info L' d \<and>
       add_blur_borders L d w h b = add_blur_borders L' d w h b \<and>
       resize_image L d rw rh p mw mh = resize_image L' d rw rh p mw mh \<and>
       compress_image L d t q = compress_image L' d t q) \<and>
    (pil_repr L = pil_repr L' \<longrightarrow>
       map_sum id (map without_filename) (process_pack L clock d config) =
       map_sum id (map without_filename) (process_pack L' clock' d config))"
proof (intro conjI allI impI)
  show "validate_image_file L d f m a = validate_image_file L' d f m a"
    by (rule validate_image_file_codecs[OF assms])
  show "forget_error (get_image_info L d) = forget_error (get_image_info L' d)"
    by (rule get_image_info_codecs[OF assms])
  show "forget_error (add_blur_borders L d w h b) = forget_error (add_blur_borders L' d w h b)"
    by (rule add_blur_borders_codecs[OF assms])
  show "forget_error (resize_image L d rw rh p mw mh) =
      forget_error (resize_image L' d rw rh p mw mh)"
    by (rule resize_image_codecs[OF assms])
  show "forget_error (compress_image L d t q) = forget_error (compress_image L' d t q)"
    by (rule compress_image_codecs[OF assms])
  show "map_sum (\<lambda>e. ()) (map without_filename) (process_pack L clock d config) =
      map_sum (\<lambda>e. ()) (map without_filename) (process_pack L' clock' d config)"
    by (rule process_pack_codecs[OF assms])
next
  fix rs i assume "process_pack L clock d config = Inr rs \<and> i < length rs"
  then have l: "pack_loop L clock d (config_outputs config) 0 [] = Inr rs" and i: "i < length rs"
    by (auto simp: process_pack_def reraise_def split: sum.splits)
  from pack_loop_results[OF l] i
  show "r_filename (rs ! i) = r_name (rs ! i) @ ''_'' @ strftime (clock i) @ ''.png''"
    by auto
next
  assume "\<forall>k. strftime (clock k) = strftime (clock' k)"
  from pack_loop_same_stamps[OF this]
  have "pack_loop L' clock d (config_outputs config) 0 [] =
        pack_loop L' clock' d (config_outputs config) 0 []" .
  with pack_loop_codecs[OF assms, of clock d "config_outputs config" 0 "[]"]
  show "forget_error (process_pack L clock d config) =
       forget_error (process_pack L' clock' d config)"
    by (simp add: process_pack_def forget_error_reraise)
next
  assume "pil_open L d \<noteq> None"
  from image_open_decoded[OF assms this]
  have o: "image_open L' d = image_open L d" .
  have j: "pil_save_jpeg L' = pil_save_jpeg L" and g: "pil_save_png L' = pil_save_png L"
    using assms by (simp_all add: same_codecs_def)
  have s: "save_at L' = save_at L" by (simp add: save_at_def fun_eq_iff j)
  show "get_image_info L d = get_image_info L' d"
    unfolding get_image_info_def o by (rule refl)
  show "add_blur_borders L d w h b = add_blur_borders L' d w h b"
    unfolding add_blur_borders_def o g by (rule refl)
  show "resize_image L d rw rh p mw mh = resize_image L' d rw rh p mw mh"
    unfolding resize_image_def o g by (rule refl)
  show "compress_image L d t q = compress_image L' d t q"
    unfolding compress_image_def o j s by (rule refl)
next
  assume "pil_repr L = pil_repr L'"
  with assms have "L = L'" by (rule same_codecs_same_repr)
  moreover
  have "map_sum id (map without_filename) (pack_loop L' clock d (config_outputs config) 0 []) =
        map_sum id (map without_filename) (pack_loop L' clock' d (config_outputs config) 0 [])"
    by (rule pack_loop_clock) simp
  ultimately
  show "map_sum id (map without_filename) (process_pack L clock d config) =
       map_sum id (map without_filename) (process_pack L' clock' d config)"
    by (auto simp: process_pack_def reraise_def split: sum.splits)
qed

text \<open>
  The stand-in library at two addresses: the file names of the sample pack when the clock
  shows 07:05:00 and then 07:05:01, the same pack in the evening at the other address, a
  compression, and the metadata of the empty buffer.
\<close>

theorem invocations_agree_witness:
  "same_codecs (stub_pil 4 3 ''RGB'' growing) stub_pil_elsewhere \<and>
   (\<exists>rs. process_pack (stub_pil 4 3 ''RGB'' growing) morning ''x'' sample_pack = Inr rs \<and>
      r_filename (rs ! 0) = ''square_20240309_070500.png'' \<and>
      r_filename (rs ! 1) = ''output_20240309_070501.png'') \<and>
   map_sum (\<lambda>e. ()) (map without_filename)
     (process_pack stub_pil_elsewhere evening ''x'' sample_pack) =
     Inr [\<lparr>r_data = ''PNG'' @ replicate 8 CHR ''.'', r_filename = [],
           r_width = Some 8, r_height = Some 8, r_size = 11, r_name = ''square''\<rparr>,
          \<lparr>r_data = ''PNG'' @ replicate 5 CHR ''.'', r_filename = [],
           r_width = Some 5, r_height = Some 4, r_size = 8, r_name = ''output''\<rparr>] \<and>
   compress_image stub_pil_elsewhere ''x'' None None = Inr (replicate 1850 CHR ''J'', 1850, 85) \<and>
   forget_error (get_image_info stub_pil_elsewhere []) = Inl ()"
proof -
  let ?L = "stub_pil 4 3 ''RGB'' growing"
  note t = invocations_agree[OF stub_pil_elsewhere_codecs,
             where d = "''x''" and clock = morning and clock' = evening and config = sample_pack
               and t = None and q = None]
  obtain rs where rs: "process_pack ?L morning ''x'' sample_pack = Inr rs" "length rs = 2"
    "r_name (rs ! 0) = ''square''" "r_name (rs ! 1) = ''output''"
    by (simp add: sample_pack_run)
  from t rs(1,2)
  have "r_filename (rs ! 0) = r_name (rs ! 0) @ ''_'' @ strftime (morning 0) @ ''.png''"
       "r_filename (rs ! 1) = r_name (rs ! 1) @ ''_'' @ strftime (morning 1) @ ''.png''"
    by auto
  with rs strftime_morning1
  have 1: "\<exists>rs. process_pack ?L morning ''x'' sample_pack = Inr rs \<and>
      r_filename (rs ! 0) = ''square_20240309_070500.png'' \<and>
      r_filename (rs ! 1) = ''output_20240309_070501.png''"
    by (simp add: strftime_morning)
  from t have "map_sum (\<lambda>e. ()) (map without_filename)
      (process_pack stub_pil_elsewhere evening ''x'' sample_pack) =
     map_sum (\<lambda>e. ()) (map without_filename) (process_pack ?L morning ''x'' sample_pack)"
    by simp
  then have 2: "map_sum (\<lambda>e. ()) (map without_filename)
     (process_pack stub_pil_elsewhere evening ''x'' sample_pack) =
     Inr [\<lparr>r_data = ''PNG'' @ replicate 8 CHR ''.'', r_filename = [],
           r_width = Some 8, r_height = Some 8, r_size = 11, r_name = ''square''\<rparr>,
          \<lparr>r_data = ''PNG'' @ replicate 5 CHR ''.'', r_filename = [],
           r_width = Some 5, r_height = Some 4, r_size = 8, r_name = ''output''\<rparr>]"
    by (simp add: sample_pack_run without_filename_def)
  have "pil_open ?L ''x'' \<noteq> None" by (simp add: stub_open)
  with t have "compress_image stub_pil_elsewhere ''x'' None None = compress_image ?L ''x'' None None"
    by simp
  also have "\<dots> = Inr (replicate 1850 CHR ''J'', 1850, 85)"
    by (subst compress_image_default[OF stub_open _ stub_save_jpeg])
       (simp_all add: flatten_rgb_def growing_def)
  finally have 3: "compress_image stub_pil_elsewhere ''x'' None None =
    Inr (replicate 1850 CHR ''J'', 1850, 85)" .
  from invocations_agree[OF stub_pil_elsewhere_codecs, where d = "[]"]
  have "forget_error (get_image_info stub_pil_elsewhere []) = forget_error (get_image_info ?L [])"
    by simp
  also have "\<dots> = Inl ()"
    by (simp add: get_image_info_def image_open_def stub_pil_def reraise_def forget_error_def)
  finally have 4: "forget_error (get_image_info stub_pil_elsewhere []) = Inl ()" .
  from stub_pil_elsewhere_codecs 1 2 3 4 show ?thesis by blast
qed

text \<open>
  Claim C6 as the specification states it fails twice: the same buffer and the same pack, run
  in the morning and in the evening, give different results, because the file names differ;
  and the metadata of the empty buffer is refused with two different messages when the stream
  lies at two different addresses.
\<close>

theorem invocations_counterexample:
  "process_pack (stub_pil 4 3 ''RGB'' growing) morning ''x'' sample_pack \<noteq>
   process_pack (stub_pil 4 3 ''RGB'' growing) evening ''x'' sample_pack \<and>
   same_codecs (stub_pil 4 3 ''RGB'' growing) stub_pil_elsewhere \<and>
   get_image_info (stub_pil 4 3 ''RGB'' growing) [] \<noteq> get_image_info stub_pil_elsewhere []"
proof (intro conjI)
  show "process_pack (stub_pil 4 3 ''RGB'' growing) morning ''x'' sample_pack \<noteq>
        process_pack (stub_pil 4 3 ''RGB'' growing) evening ''x'' sample_pack"
    by (simp add: sample_pack_run strftime_morning strftime_evening)
  show "same_codecs (stub_pil 4 3 ''RGB'' growing) stub_pil_elsewhere"
    by (simp add: same_codecs_def stub_pil_elsewhere_def)
  show "get_image_info (stub_pil 4 3 ''RGB'' growing) [] \<noteq> get_image_info stub_pil_elsewhere []"
    by (simp add: get_image_info_def image_open_def stub_pil_def stub_pil_elsewhere_def
                  reraise_def)
qed

section \<open>The compression target of a pack entry\<close>

text \<open>A target of 0 KiB and no quality is the default compression.\<close>

lemma compress_image_no_target:
  "compress_image L d (Some 0) None = compress_image L d None (Some 85)"
  by (simp add: compress_image_def split: sum.splits)

lemma stub_search_1024:
  "compress_search (pil_save_jpeg (stub_pil 4 3 ''RGB'' growing) img) 1024 1 100 None =
     Inr (Some (replicate 1020 CHR ''J'', 1020, 2))"
  by (simp add: stub_pil_def growing_def compress_search.simps)

text \<open>
  The compression step inside the body of the loop: what an entry with \<^verbatim>\<open>compress\<close> true
  gives, from what the same entry gives without compression.
\<close>

lemma pack_output_compressed:
  assumes "pack_output L d (out\<lparr>o_compress := None\<rparr>) stamp = Inr (Some r0)"
    and "o_compress out = Some True"
  shows "pack_output L d out stamp =
           (case pack_compress L (r_data r0) (o_compress_target out) of
              Inl e \<Rightarrow> Inl e
            | Inr j \<Rightarrow> Inr (Some (r0\<lparr>r_data := j, r_size := int (length j)\<rparr>)))"
  using assms
  by (auto simp: pack_output_def Let_def split: option.splits sum.splits if_splits)

lemma pack_output_small_target:
  assumes "o_compress_target out = Some compress_target"
    and "0 \<le> compress_target" and "compress_target < 1024"
  shows "pack_output L d out stamp = pack_output L d (out\<lparr>o_compress_target := None\<rparr>) stamp"
proof -
  from assms(2,3) have "compress_target div 1024 = 0" by simp
  then have "pack_compress L p (Some compress_target) = pack_compress L p None" for p
    using compress_image_no_target[of L p] by (simp add: pack_compress_def)
  then show ?thesis
    using assms(1) by (simp add: pack_output_def Let_def split: option.splits sum.splits)
qed

lemma pack_output_without_small_target:
  "pack_output L d (without_small_target out) stamp = pack_output L d out stamp"
proof (cases "o_compress_target out")
  case None
  then show ?thesis by (simp add: without_small_target_def)
next
  case (Some t)
  show ?thesis
  proof (cases "0 \<le> t \<and> t < 1024")
    case True
    with Some pack_output_small_target[of out t L d stamp] show ?thesis
      by (simp add: without_small_target_def)
  next
    case False
    with Some show ?thesis by (auto simp: without_small_target_def)
  qed
qed

lemma pack_loop_without_small_target:
  "pack_loop L clock d (map without_small_target outs) n results =
   pack_loop L clock d outs n results"
  by (induction outs arbitrary: n results)
     (simp_all add: pack_output_without_small_target split: sum.splits option.splits)

lemma pack_compress_search:
  assumes "pil_open L p = Some img0" and "flatten_rgb img0 = Inr img"
    and "compress_target div 1024 \<noteq> 0"
  shows "pack_compress L p (Some compress_target) =
        reraise ''Error compressing image: ''
          (case compress_search (pil_save_jpeg L img) (compress_target div 1024 * 1024) 1 100 None of
             Inl e \<Rightarrow> Inl e
           | Inr (Some (compressed_data, compressed_size, q)) \<Rightarrow> Inr compressed_data
           | Inr None \<Rightarrow> pil_save_jpeg L img 1)"
proof -
  from assms(3) have t: "compress_target \<noteq> 0" by auto
  have "compress_image L p (Some (compress_target div 1024)) None =
           reraise ''Error compressing image: ''
             (case compress_search (pil_save_jpeg L img) (compress_target div 1024 * 1024) 1 100 None of
                Inl e \<Rightarrow> Inl e
              | Inr (Some best_result) \<Rightarrow> Inr best_result
              | Inr None \<Rightarrow> save_at L img 1)"
    using assms by (intro compress_image_target) auto
  then show ?thesis
    using t by (auto simp add: pack_compress_def save_at_def reraise_def
                     split: sum.splits option.splits)
qed

lemma pack_compress_default:
  assumes "pil_open L p = Some img0" and "flatten_rgb img0 = Inr img"
    and "pil_save_jpeg L img 85 = Inr j"
  shows "pack_compress L p None = Inr j"
  using assms
  by (simp add: pack_compress_def compress_image_def image_open_def save_at_def reraise_def)

lemma stub_thumb_uncompressed:
  "pack_output (stub_pil 4 3 ''RGB'' growing) ''x''
     (\<lparr>o_name = Some ''thumb'', o_width = Some 5, o_height = Some 4,
       o_method = Some ''resize'', o_compress = Some True, o_compress_target = Some t\<rparr>
      \<lparr>o_compress := None\<rparr>) stamp =
   Inr (Some \<lparr>r_data = ''PNG'' @ replicate 5 CHR ''.'', r_filename = ''thumb_'' @ stamp @ ''.png'',
              r_width = Some 5, r_height = Some 4, r_size = 8, r_name = ''thumb''\<rparr>)"
  by (simp add: pack_output_def stub_resize_exact Let_def)

lemma stub_search_negative:
  "compress_search (pil_save_jpeg (stub_pil 4 3 ''RGB'' growing) img) (- 1024) 1 100 None =
     Inr None"
  by (rule compress_search_none) (simp add: stub_pil_def)

text \<open>
  Claim C10, as the code has it. The pack hands \<^verbatim>\<open>compress_target // 1024\<close> to
  \<^verbatim>\<open>compress_image\<close> as the target in KiB. For every entry, a target from 0 to 1023 bytes is
  as no target: the run gives what it gives with these targets taken away. So an entry
  with \<^verbatim>\<open>compress\<close> true and such a target is not searched: its data is the encoding at
  quality 85 of what the entry gives uncompressed. When the quotient is not 0, the
  search runs with the byte target \<open>compress_target div 1024 * 1024\<close>, the target rounded
  down to a whole KiB, and the data of the entry is what the search records, or the
  encoding at quality 1 when it records nothing. The quotient of a negative target is
  negative, not 0: that target is searched too.
\<close>

theorem pack_target_in_kib:
  "process_pack L clock d config =
     process_pack L clock d
       (config\<lparr>outputs := Some (map without_small_target (config_outputs config))\<rparr>) \<and>
   (o_compress out = Some True \<and> o_compress_target out = Some compress_target \<and>
    0 \<le> compress_target \<and> compress_target < 1024 \<and>
    pack_output L d (out\<lparr>o_compress := None\<rparr>) stamp = Inr (Some r0) \<and>
    pil_open L (r_data r0) = Some img0 \<and> flatten_rgb img0 = Inr img \<and>
    pil_save_jpeg L img 85 = Inr j \<longrightarrow>
      pack_output L d out stamp = Inr (Some (r0\<lparr>r_data := j, r_size := int (length j)\<rparr>))) \<and>
   (o_compress out = Some True \<and> o_compress_target out = Some compress_target \<and>
    compress_target div 1024 \<noteq> 0 \<and>
    pack_output L d (out\<lparr>o_compress := None\<rparr>) stamp = Inr (Some r0) \<and>
    pil_open L (r_data r0) = Some img0 \<and> flatten_rgb img0 = Inr img \<longrightarrow>
      pack_output L d out stamp =
        (case reraise ''Error compressing image: ''
                (case compress_search (pil_save_jpeg L img)
                        (compress_target div 1024 * 1024) 1 100 None of
                   Inl e \<Rightarrow> Inl e
                 | Inr (Some (compressed_data, compressed_size, q)) \<Rightarrow> Inr compressed_data
                 | Inr None \<Rightarrow> pil_save_jpeg L img 1) of
           Inl e \<Rightarrow> Inl e
         | Inr c \<Rightarrow> Inr (Some (r0\<lparr>r_data := c, r_size := int (length c)\<rparr>))))"
proof (intro conjI impI)
  show "process_pack L clock d config =
     process_pack L clock d
       (config\<lparr>outputs := Some (map without_small_target (config_outputs config))\<rparr>)"
    by (simp add: process_pack_def config_outputs_def pack_loop_without_small_target)
next
  assume a: "o_compress out = Some True \<and> o_compress_target out = Some compress_target \<and>
    0 \<le> compress_target \<and> compress_target < 1024 \<and>
    pack_output L d (out\<lparr>o_compress := None\<rparr>) stamp = Inr (Some r0) \<and>
    pil_open L (r_data r0) = Some img0 \<and> flatten_rgb img0 = Inr img \<and>
    pil_save_jpeg L img 85 = Inr j"
  then have "compress_target div 1024 = 0" by simp
  then have "pack_compress L (r_data r0) (Some compress_target) = pack_compress L (r_data r0) None"
    using compress_image_no_target[of L "r_data r0"] by (simp add: pack_compress_def)
  also have "\<dots> = Inr j" using a by (intro pack_compress_default) auto
  finally show "pack_output L d out stamp = Inr (Some (r0\<lparr>r_data := j, r_size := int (length j)\<rparr>))"
    using a by (subst pack_output_compressed[of L d out stamp r0]) auto
next
  assume a: "o_compress out = Some True \<and> o_compress_target out = Some compress_target \<and>
    compress_target div 1024 \<noteq> 0 \<and>
    pack_output L d (out\<lparr>o_compress := None\<rparr>) stamp = Inr (Some r0) \<and>
    pil_open L (r_data r0) = Some img0 \<and> flatten_rgb img0 = Inr img"
  then have "pack_compress L (r_data r0) (Some compress_target) =
        reraise ''Error compressing image: ''
          (case compress_search (pil_save_jpeg L img) (compress_target div 1024 * 1024) 1 100 None of
             Inl e \<Rightarrow> Inl e
           | Inr (Some (compressed_data, compressed_size, q)) \<Rightarrow> Inr compressed_data
           | Inr None \<Rightarrow> pil_save_jpeg L img 1)"
    by (intro pack_compress_search) auto
  then show "pack_output L d out stamp =
        (case reraise ''Error compressing image: ''
                (case compress_search (pil_save_jpeg L img)
                        (compress_target div 1024 * 1024) 1 100 None of
                   Inl e \<Rightarrow> Inl e
                 | Inr (Some (compressed_data, compressed_size, q)) \<Rightarrow> Inr compressed_data
                 | Inr None \<Rightarrow> pil_save_jpeg L img 1) of
           Inl e \<Rightarrow> Inl e
         | Inr c \<Rightarrow> Inr (Some (r0\<lparr>r_data := c, r_size := int (length c)\<rparr>)))"
    using a by (subst pack_output_compressed[of L d out stamp r0]) auto
qed

text \<open>
  A pack of one entry, resized to 5 by 4 and compressed: the target of 500 bytes gives the
  encoding at quality 85 (1850 bytes); the target of 1500 bytes is searched as 1024 bytes
  and gives the encoding at quality 2 (1020 bytes).
\<close>

theorem pack_target_in_kib_witness:
  "process_pack (stub_pil 4 3 ''RGB'' growing) morning ''x'' (compressed_pack 500) =
     Inr [\<lparr>r_data = replicate 1850 CHR ''J'', r_filename = ''thumb_20240309_070500.png'',
           r_width = Some 5, r_height = Some 4, r_size = 1850, r_name = ''thumb''\<rparr>] \<and>
   process_pack (stub_pil 4 3 ''RGB'' growing) morning ''x'' (compressed_pack 1500) =
     Inr [\<lparr>r_data = replicate 1020 CHR ''J'', r_filename = ''thumb_20240309_070500.png'',
           r_width = Some 5, r_height = Some 4, r_size = 1020, r_name = ''thumb''\<rparr>]"
proof -
  let ?L = "stub_pil 4 3 ''RGB'' growing"
  let ?out = "\<lambda>t. \<lparr>o_name = Some ''thumb'', o_width = Some 5, o_height = Some 4,
       o_method = Some ''resize'', o_compress = Some True, o_compress_target = Some t\<rparr>"
  let ?r0 = "\<lparr>r_data = ''PNG'' @ replicate 5 CHR ''.'', r_filename = ''thumb_'' @ strftime (morning 0) @ ''.png'',
              r_width = Some 5, r_height = Some 4, r_size = 8, r_name = ''thumb''\<rparr>"
  let ?img = "\<lparr>img_width = 4, img_height = 3, img_mode = ''RGB'', img_format = ''PNG'',
           img_pix = Decoded (''PNG'' @ replicate 5 CHR ''.'')\<rparr>"
  have a: "pil_open ?L (r_data ?r0) = Some ?img" by (simp add: stub_pil_def)
  have b: "flatten_rgb ?img = Inr ?img" by (simp add: flatten_rgb_def)
  have j: "pil_save_jpeg ?L ?img 85 = Inr (replicate 1850 CHR ''J'')"
    by (simp add: stub_pil_def growing_def)
  have 1: "pack_output ?L ''x'' (?out 500) (strftime (morning 0)) =
             Inr (Some (?r0\<lparr>r_data := replicate 1850 CHR ''J'',
                             r_size := int (length (replicate 1850 CHR ''J''))\<rparr>))"
    using pack_target_in_kib[of ?L morning "''x''" "compressed_pack 500" "?out 500" 500
            "strftime (morning 0)" ?r0 ?img ?img "replicate 1850 CHR ''J''"]
          stub_thumb_uncompressed[of 500 "strftime (morning 0)"] a b j
    by simp
  have d: "(1500::int) div 1024 \<noteq> 0" "(1500::int) div 1024 * 1024 = 1024" by simp_all
  have 2: "pack_output ?L ''x'' (?out 1500) (strftime (morning 0)) =
             Inr (Some (?r0\<lparr>r_data := replicate 1020 CHR ''J'',
                             r_size := int (length (replicate 1020 CHR ''J''))\<rparr>))"
    using pack_target_in_kib[of ?L morning "''x''" "compressed_pack 1500" "?out 1500" 1500
            "strftime (morning 0)" ?r0 ?img ?img "replicate 1850 CHR ''J''"]
          stub_thumb_uncompressed[of 1500 "strftime (morning 0)"] a b d
    by (simp add: stub_search_1024 reraise_def)
  show ?thesis
    using 1 2
    by (simp add: process_pack_def config_outputs_def compressed_pack_def reraise_def
                  strftime_morning)
qed

text \<open>
  Claim C10 as the specification states it fails at a negative target, which is strictly
  below 1024: the quotient of - 1 by 1024 is - 1, the search runs with the target of
  - 1024 bytes, records nothing, and the entry is compressed at quality 1 (1010 bytes),
  not at quality 85 (1850 bytes).
\<close>

theorem pack_target_counterexample:
  "process_pack (stub_pil 4 3 ''RGB'' growing) morning ''x'' (compressed_pack (- 1)) =
     Inr [\<lparr>r_data = replicate 1010 CHR ''J'', r_filename = ''thumb_20240309_070500.png'',
           r_width = Some 5, r_height = Some 4, r_size = 1010, r_name = ''thumb''\<rparr>]"
proof -
  let ?L = "stub_pil 4 3 ''RGB'' growing"
  let ?out = "\<lparr>o_name = Some ''thumb'', o_width = Some 5, o_height = Some 4,
       o_method = Some ''resize'', o_compress = Some True, o_compress_target = Some (- 1)\<rparr>"
  let ?r0 = "\<lparr>r_data = ''PNG'' @ replicate 5 CHR ''.'', r_filename = ''thumb_'' @ strftime (morning 0) @ ''.png'',
              r_width = Some 5, r_height = Some 4, r_size = 8, r_name = ''thumb''\<rparr>"
  let ?img = "\<lparr>img_width = 4, img_height = 3, img_mode = ''RGB'', img_format = ''PNG'',
           img_pix = Decoded (''PNG'' @ replicate 5 CHR ''.'')\<rparr>"
  have a: "pil_open ?L (''PNG'' @ replicate 5 CHR ''.'') = Some ?img" by (simp add: stub_pil_def)
  have b: "flatten_rgb ?img = Inr ?img" by (simp add: flatten_rgb_def)
  have d: "(- 1::int) div 1024 \<noteq> 0" "(- 1::int) div 1024 * 1024 = - 1024" by simp_all
  have c: "pack_compress ?L (''PNG'' @ replicate 5 CHR ''.'') (Some (- 1)) = Inr (replicate 1010 CHR ''J'')"
    unfolding pack_compress_search[OF a b d(1)] d(2) stub_search_negative
    by (simp add: reraise_def stub_pil_def growing_def)
  have "pack_output ?L ''x'' ?out (strftime (morning 0)) =
          Inr (Some (?r0\<lparr>r_data := replicate 1010 CHR ''J'',
                          r_size := int (length (replicate 1010 CHR ''J''))\<rparr>))"
    using pack_output_compressed[OF stub_thumb_uncompressed[of "- 1" "strftime (morning 0)"]] c
    by simp
  then show ?thesis
    by (simp add: process_pack_def config_outputs_def compressed_pack_def reraise_def
                  strftime_morning)
qed

end
